theory Spec2Isabelle
  imports Main
begin

section \<open>Python values\<close>

text \<open>
  The module \<^verbatim>\<open>exotic.py\<close> is a thin layer over Python's call mechanism, so the
  embedding is a small evaluator for calls. A value is one of the data values the module's
  examples use, or a callable. The callables are: a plain function of the caller
  (opaque, looked up in an environment), the two lambdas of the module, a
  \<^verbatim>\<open>functools.partial\<close> object, an instance of \<^verbatim>\<open>ExoticFunction\<close> (by address: instances
  have identity and live in a store), and the four functions the module defines with
  \<^verbatim>\<open>def\<close>.
\<close>

datatype error = TypeError | IndexError | Raised string

datatype val =
    VNone
  | VInt int
  | VStr string
  | VList "val list"
  | VFun string
  | VLambdaId
  | VThunk val
  | VPartial val "val list"
  | VRef nat
  | VDefExotic
  | VDefUnpack
  | VDefApply
  | VDefIdentity

text \<open>
  \<^item> \<open>VFun i\<close>: the caller's function named \<open>i\<close>;
  \<^item> \<open>VLambdaId\<close>: \<^verbatim>\<open>lambda x: x\<close>, the default of \<^verbatim>\<open>_composed\<close>;
  \<^item> \<open>VThunk a\<close>: \<^verbatim>\<open>lambda *, __x=arg: __x\<close> of \<^verbatim>\<open>__rshift__\<close>, with \<open>a\<close> the value of \<^verbatim>\<open>arg\<close>;
  \<^item> \<open>VPartial f as\<close>: \<^verbatim>\<open>partial(f, *as)\<close> (the module never binds keywords in a partial);
  \<^item> \<open>VRef a\<close>: the \<^verbatim>\<open>ExoticFunction\<close> instance at address \<open>a\<close>;
  \<^item> \<open>VDefExotic\<close>, \<open>VDefUnpack\<close>, \<open>VDefApply\<close>, \<open>VDefIdentity\<close>: the functions
    \<^verbatim>\<open>exotic\<close>, \<^verbatim>\<open>unpack\<close>, \<^verbatim>\<open>apply\<close>, \<^verbatim>\<open>identity\<close> as written, before their decorator
    is applied.
\<close>

type_synonym kwargs = "(string \<times> val) list"

text \<open>Keyword arguments are a Python dict: an association list whose keys are distinct.\<close>

record exotic_function =
  func :: val
  composed :: val

text \<open>
  The two attributes of an instance; \<open>composed\<close> is the source's \<^verbatim>\<open>_composed\<close>.
  The store maps every address to an instance; the addresses below \<open>next_addr\<close> are
  the allocated ones. The caller's own state (what the plain functions read and write)
  is \<open>user\<close>.
\<close>

record 's state =
  objs :: "nat \<Rightarrow> exotic_function"
  next_addr :: nat
  user :: 's

type_synonym 's result = "(error + val) \<times> 's state"

text \<open>
  A call either returns a result (a value or a raised error, and the state it leaves),
  or does not return within the recursion depth it was given: \<open>None\<close>.
\<close>

type_synonym 's comp = "'s result option"

type_synonym 's caller = "val \<Rightarrow> val list \<Rightarrow> kwargs \<Rightarrow> 's state \<Rightarrow> 's comp"

type_synonym 's env = "string \<Rightarrow> val list \<Rightarrow> kwargs \<Rightarrow> 's \<Rightarrow> (error + val) \<times> 's"

definition then_call :: "'s comp \<Rightarrow> (val \<Rightarrow> 's state \<Rightarrow> 's comp) \<Rightarrow> 's comp" where
  "then_call m k =
     (case m of
        None \<Rightarrow> None
      | Some (Inl e, st) \<Rightarrow> Some (Inl e, st)
      | Some (Inr v, st) \<Rightarrow> k v st)"

section \<open>Python's calling convention\<close>

text \<open>
  Binding the arguments of a call to one parameter \<open>p\<close> that may be passed by position
  or by keyword, with an optional default \<open>d\<close>.
\<close>

definition bind1 :: "string \<Rightarrow> val option \<Rightarrow> val list \<Rightarrow> kwargs \<Rightarrow> error + val" where
  "bind1 p d args kw =
     (case args of
        [] \<Rightarrow>
          (if list_ex (\<lambda>(k, v). k \<noteq> p) kw then Inl TypeError
           else case map_of kw p of
                  Some v \<Rightarrow> Inr v
                | None \<Rightarrow> (case d of Some v \<Rightarrow> Inr v | None \<Rightarrow> Inl TypeError))
      | [a] \<Rightarrow> (if kw = [] then Inr a else Inl TypeError)
      | _ \<Rightarrow> Inl TypeError)"

text \<open>A keyword-only parameter \<open>p\<close> with default \<open>d\<close>: only the keywords can set it.\<close>

definition bind_kwonly :: "string \<Rightarrow> val \<Rightarrow> kwargs \<Rightarrow> error + val" where
  "bind_kwonly p d kw = bind1 p (Some d) [] kw"

text \<open>Two parameters: \<open>p\<close> is required, \<open>q\<close> has the default \<open>d\<close>.\<close>

definition bind2 :: "string \<Rightarrow> string \<Rightarrow> val \<Rightarrow> val list \<Rightarrow> kwargs \<Rightarrow> error + val \<times> val" where
  "bind2 p q d args kw =
     (case args of
        [] \<Rightarrow>
          (if list_ex (\<lambda>(k, v). k \<noteq> p \<and> k \<noteq> q) kw then Inl TypeError
           else case map_of kw p of
                  None \<Rightarrow> Inl TypeError
                | Some a \<Rightarrow> Inr (a, case map_of kw q of Some b \<Rightarrow> b | None \<Rightarrow> d))
      | [a] \<Rightarrow>
          (if list_ex (\<lambda>(k, v). k \<noteq> q) kw then Inl TypeError
           else Inr (a, case map_of kw q of Some b \<Rightarrow> b | None \<Rightarrow> d))
      | [a, b] \<Rightarrow> (if kw = [] then Inr (a, b) else Inl TypeError)
      | _ \<Rightarrow> Inl TypeError)"

fun callable :: "val \<Rightarrow> bool" where
  "callable VNone = False"
| "callable (VInt i) = False"
| "callable (VStr s) = False"
| "callable (VList xs) = False"
| "callable v = True"

text \<open>
  A method written \<^verbatim>\<open>def m(self, *args, **kwargs)\<close> is called with the instance bound to
  \<open>self\<close> by position. \<open>self\<close> is an ordinary parameter, so a keyword argument named
  \<^verbatim>\<open>self\<close> is a second value for it: Python raises TypeError and the body does not run.
\<close>

definition keyword_self :: "kwargs \<Rightarrow> bool" where
  "keyword_self kw = list_ex (\<lambda>(k, v). k = ''self'') kw"

text \<open>\<^verbatim>\<open>*seq\<close> in a call: the elements of a list, the characters of a string.\<close>

fun iter :: "val \<Rightarrow> error + val list" where
  "iter (VList xs) = Inr xs"
| "iter (VStr s) = Inr (map (\<lambda>c. VStr [c]) s)"
| "iter v = Inl TypeError"

text \<open>\<^verbatim>\<open>functools.partial(f, *as)\<close> refuses a first argument that is not callable.\<close>

definition partial :: "val \<Rightarrow> val list \<Rightarrow> error + val" where
  "partial f as = (if callable f then Inr (VPartial f as) else Inl TypeError)"

section \<open>The class ExoticFunction\<close>

text \<open>
  \<^verbatim>\<open>ExoticFunction(func, _composed)\<close>: a new instance at a fresh address, whose two
  attributes \<^verbatim>\<open>__init__\<close> sets; \<^verbatim>\<open>_composed\<close> defaults to \<^verbatim>\<open>lambda x: x\<close>. The
  result is the address of the instance.
\<close>

definition new_ExoticFunction :: "val \<Rightarrow> val option \<Rightarrow> 's state \<Rightarrow> nat \<times> 's state" where
  "new_ExoticFunction f c st =
     (next_addr st,
      st\<lparr>objs := (objs st)(next_addr st :=
              \<lparr>func = f, composed = (case c of None \<Rightarrow> VLambdaId | Some c' \<Rightarrow> c')\<rparr>),
         next_addr := Suc (next_addr st)\<rparr>)"

text \<open>
  The methods take \<open>self\<close> as an address, and those that build an instance return its
  address. The first argument of those that call something is the evaluator for the calls
  they make.
  \<^verbatim>\<open>def __call__(self, *args, **kwargs): return self._composed(self.func(*args, **kwargs))\<close>.
  The other methods are reached through their operators, which pass no keyword.
\<close>

definition ExoticFunction_call ::
  "'s caller \<Rightarrow> nat \<Rightarrow> val list \<Rightarrow> kwargs \<Rightarrow> 's state \<Rightarrow> 's comp" where
  "ExoticFunction_call rc self args kw st =
     (if keyword_self kw then Some (Inl TypeError, st)
      else then_call (rc (func (objs st self)) args kw st)
             (\<lambda>r st'. rc (composed (objs st self)) [r] [] st'))"

text \<open>\<^verbatim>\<open>__matmul__\<close>: \<^verbatim>\<open>return ExoticFunction(func, self)\<close>.\<close>

definition matmul :: "nat \<Rightarrow> val \<Rightarrow> 's state \<Rightarrow> nat \<times> 's state" where
  "matmul self g st = new_ExoticFunction g (Some (VRef self)) st"

text \<open>\<^verbatim>\<open>__mul__\<close>: \<^verbatim>\<open>return ExoticFunction(partial(self.func, arg), self._composed)\<close>.\<close>

definition mul :: "nat \<Rightarrow> val \<Rightarrow> 's state \<Rightarrow> (error + nat) \<times> 's state" where
  "mul self arg st =
     (case partial (func (objs st self)) [arg] of
        Inl e \<Rightarrow> (Inl e, st)
      | Inr p \<Rightarrow>
          (case new_ExoticFunction p (Some (composed (objs st self))) st of
             (w, st') \<Rightarrow> (Inr w, st')))"

text \<open>\<^verbatim>\<open>__rshift__\<close>: \<^verbatim>\<open>return self.__mul__(lambda *, __x=arg: __x)\<close>.\<close>

definition rshift :: "nat \<Rightarrow> val \<Rightarrow> 's state \<Rightarrow> (error + nat) \<times> 's state" where
  "rshift self arg st = mul self (VThunk arg) st"

text \<open>\<^verbatim>\<open>__lshift__\<close>: \<^verbatim>\<open>return self.__mul__(arg)\<close>.\<close>

definition lshift :: "nat \<Rightarrow> val \<Rightarrow> 's state \<Rightarrow> (error + nat) \<times> 's state" where
  "lshift self arg st = mul self arg st"

text \<open>\<^verbatim>\<open>__or__\<close>: \<^verbatim>\<open>return modifier(func=self)\<close>.\<close>

definition or_pipe :: "'s caller \<Rightarrow> nat \<Rightarrow> val \<Rightarrow> 's state \<Rightarrow> 's comp" where
  "or_pipe rc self modifier st = rc modifier [] [(''func'', VRef self)] st"

section \<open>The lambdas and the functions of the module\<close>

text \<open>\<^verbatim>\<open>lambda x: x\<close>.\<close>

definition lambda_id :: "val list \<Rightarrow> kwargs \<Rightarrow> error + val" where
  "lambda_id args kw = bind1 ''x'' None args kw"

text \<open>
  \<^verbatim>\<open>lambda *, __x=arg: __x\<close>. It takes no positional argument. Its one parameter is
  keyword-only; written inside the class body, the name \<^verbatim>\<open>__x\<close> is mangled by Python to
  \<^verbatim>\<open>_ExoticFunction__x\<close>, in the parameter list and in the body alike.
\<close>

definition thunk :: "val \<Rightarrow> val list \<Rightarrow> kwargs \<Rightarrow> error + val" where
  "thunk a args kw =
     (if args \<noteq> [] then Inl TypeError else bind_kwonly ''_ExoticFunction__x'' a kw)"

text \<open>\<^verbatim>\<open>def exotic(func): return ExoticFunction(func)\<close>.\<close>

definition def_exotic :: "val list \<Rightarrow> kwargs \<Rightarrow> 's state \<Rightarrow> 's comp" where
  "def_exotic args kw st =
     (case bind1 ''func'' None args kw of
        Inl e \<Rightarrow> Some (Inl e, st)
      | Inr f \<Rightarrow>
          (case new_ExoticFunction f None st of (w, st') \<Rightarrow> Some (Inr (VRef w), st')))"

text \<open>
  \<^verbatim>\<open>def unpack(arg, func=None): return ExoticFunction(partial(func, *arg()))\<close>.
  Python evaluates \<^verbatim>\<open>arg()\<close> and spreads its result before it calls \<^verbatim>\<open>partial\<close>.
\<close>

definition def_unpack :: "'s caller \<Rightarrow> val list \<Rightarrow> kwargs \<Rightarrow> 's state \<Rightarrow> 's comp" where
  "def_unpack rc args kw st =
     (case bind2 ''arg'' ''func'' VNone args kw of
        Inl e \<Rightarrow> Some (Inl e, st)
      | Inr (arg, f) \<Rightarrow>
          then_call (rc arg [] [] st)
            (\<lambda>r st'. case iter r of
                Inl e \<Rightarrow> Some (Inl e, st')
              | Inr xs \<Rightarrow>
                  (case partial f xs of
                     Inl e \<Rightarrow> Some (Inl e, st')
                   | Inr p \<Rightarrow>
                       (case new_ExoticFunction p None st' of
                          (w, st'') \<Rightarrow> Some (Inr (VRef w), st'')))))"

text \<open>
  \<^verbatim>\<open>def apply(*args, func=None)\<close>: every positional argument goes to \<^verbatim>\<open>args\<close>, and
  \<^verbatim>\<open>func\<close> is keyword-only.
\<close>

definition def_apply :: "'s caller \<Rightarrow> val list \<Rightarrow> kwargs \<Rightarrow> 's state \<Rightarrow> 's comp" where
  "def_apply rc args kw st =
     (case bind_kwonly ''func'' VNone kw of
        Inl e \<Rightarrow> Some (Inl e, st)
      | Inr f \<Rightarrow>
          (if f = VNone then
             (case args of
                [] \<Rightarrow> Some (Inl IndexError, st)
              | g # rest \<Rightarrow> rc g rest [] st)
           else rc f args [] st))"

text \<open>\<^verbatim>\<open>def identity(x): return x\<close>.\<close>

definition def_identity :: "val list \<Rightarrow> kwargs \<Rightarrow> error + val" where
  "def_identity args kw = bind1 ''x'' None args kw"

section \<open>Calling a value\<close>

text \<open>A plain function of the caller reads and writes the caller's state only.\<close>

definition plain :: "'s env \<Rightarrow> string \<Rightarrow> val list \<Rightarrow> kwargs \<Rightarrow> 's state \<Rightarrow> 's result" where
  "plain env i args kw st = (case env i args kw (user st) of (r, u) \<Rightarrow> (r, st\<lparr>user := u\<rparr>))"

text \<open>
  \<open>call env n f args kw st\<close> is the call \<^verbatim>\<open>f(*args, **kw)\<close> in state \<open>st\<close>, with at most
  \<open>n\<close> nested calls. A plain function is looked up in \<open>env\<close>. A value that is not
  callable raises TypeError.
\<close>

fun call :: "'s env \<Rightarrow> nat \<Rightarrow> 's caller" where
  "call env 0 f args kw st = None"
| "call env (Suc n) f args kw st =
     (case f of
        VFun i \<Rightarrow> Some (plain env i args kw st)
      | VLambdaId \<Rightarrow> Some (lambda_id args kw, st)
      | VThunk a \<Rightarrow> Some (thunk a args kw, st)
      | VPartial g as \<Rightarrow> call env n g (as @ args) kw st
      | VRef self \<Rightarrow> ExoticFunction_call (call env n) self args kw st
      | VDefExotic \<Rightarrow> def_exotic args kw st
      | VDefUnpack \<Rightarrow> def_unpack (call env n) args kw st
      | VDefApply \<Rightarrow> def_apply (call env n) args kw st
      | VDefIdentity \<Rightarrow> Some (def_identity args kw, st)
      | _ \<Rightarrow> Some (Inl TypeError, st))"

section \<open>The names the module exports\<close>

text \<open>
  \<^verbatim>\<open>exotic\<close> is an \<^verbatim>\<open>_ExoticBuilder\<close> around the function \<^verbatim>\<open>exotic\<close>;
  \<^verbatim>\<open>__mod__\<close>: \<^verbatim>\<open>return self.builder(func)\<close>.
\<close>

record exotic_builder =
  builder :: val

definition builder_mod :: "'s caller \<Rightarrow> exotic_builder \<Rightarrow> val \<Rightarrow> 's state \<Rightarrow> 's comp" where
  "builder_mod rc self f st = rc (builder self) [f] [] st"

definition exotic :: exotic_builder where
  "exotic = \<lparr>builder = VDefExotic\<rparr>"

text \<open>
  \<^verbatim>\<open>unpack\<close>, \<^verbatim>\<open>apply\<close> and \<^verbatim>\<open>identity\<close> are decorated with \<^verbatim>\<open>@ExoticFunction\<close>: importing
  the module creates three instances, in this order, so in a store that was empty they
  are at the addresses 0, 1 and 2.
\<close>

definition empty_store :: "'s \<Rightarrow> 's state" where
  "empty_store u = \<lparr>objs = (\<lambda>a. \<lparr>func = VNone, composed = VNone\<rparr>), next_addr = 0, user = u\<rparr>"

definition import_module :: "'s state \<Rightarrow> 's state" where
  "import_module st =
     (case new_ExoticFunction VDefUnpack None st of (u, st1) \<Rightarrow>
      case new_ExoticFunction VDefApply None st1 of (a, st2) \<Rightarrow>
      case new_ExoticFunction VDefIdentity None st2 of (i, st3) \<Rightarrow> st3)"

definition unpack :: val where
  "unpack = VRef 0"

definition apply' :: val where
  "apply' = VRef 1"

definition identity :: val where
  "identity = VRef 2"

definition imported :: "'s state \<Rightarrow> bool" where
  "imported st \<longleftrightarrow>
     objs st 0 = \<lparr>func = VDefUnpack, composed = VLambdaId\<rparr> \<and>
     objs st 1 = \<lparr>func = VDefApply, composed = VLambdaId\<rparr> \<and>
     objs st 2 = \<lparr>func = VDefIdentity, composed = VLambdaId\<rparr> \<and>
     3 \<le> next_addr st"

section \<open>What a call returns\<close>

text \<open>
  \<open>returns env f args kw st r\<close>: the call \<^verbatim>\<open>f(*args, **kw)\<close> in state \<open>st\<close> returns, and \<open>r\<close>
  is what it returns or raises together with the state it leaves.
\<close>

definition returns ::
  "'s env \<Rightarrow> val \<Rightarrow> val list \<Rightarrow> kwargs \<Rightarrow> 's state \<Rightarrow> 's result \<Rightarrow> bool" where
  "returns env f args kw st r \<longleftrightarrow> (\<exists>n. call env n f args kw st = Some r)"

text \<open>
  \<open>and_then P K\<close>: the results of a first call, described by \<open>P\<close>, followed by a second
  call \<open>K\<close> on the value and in the state the first one returned; an error of the first
  is the result, and the second call is not made.
\<close>

definition and_then ::
  "('s result \<Rightarrow> bool) \<Rightarrow> (val \<Rightarrow> 's state \<Rightarrow> 's result \<Rightarrow> bool) \<Rightarrow> 's result \<Rightarrow> bool" where
  "and_then P K r \<longleftrightarrow>
     (\<exists>e st. P (Inl e, st) \<and> r = (Inl e, st)) \<or> (\<exists>v st. P (Inr v, st) \<and> K v st r)"

text \<open>
  \<open>extends st st'\<close>: \<open>st'\<close> has every instance of \<open>st\<close>, unchanged, and possibly new ones.
\<close>

definition extends :: "'s state \<Rightarrow> 's state \<Rightarrow> bool" where
  "extends st st' \<longleftrightarrow>
     next_addr st \<le> next_addr st' \<and> (\<forall>a<next_addr st. objs st' a = objs st a)"

text \<open>
  \<open>adds_instance st b st'\<close>: \<open>st'\<close> is \<open>st\<close> with one more instance, at the fresh address
  \<open>b\<close>; every other address holds what it held, and the caller's state is the same.
\<close>

definition adds_instance :: "'s state \<Rightarrow> nat \<Rightarrow> 's state \<Rightarrow> bool" where
  "adds_instance st b st' \<longleftrightarrow>
     b = next_addr st \<and> next_addr st' = Suc b
     \<and> (\<forall>a. a \<noteq> b \<longrightarrow> objs st' a = objs st a) \<and> user st' = user st"

text \<open>
  \<open>unless_self kw st P\<close>: what invoking an instance in state \<open>st\<close> with the keywords \<open>kw\<close>
  returns, when \<open>P\<close> is what the body of \<^verbatim>\<open>__call__\<close> returns: TypeError and the state
  unchanged if a keyword is named \<^verbatim>\<open>self\<close>, and \<open>P\<close> otherwise.
\<close>

definition unless_self :: "kwargs \<Rightarrow> 's state \<Rightarrow> ('s result \<Rightarrow> bool) \<Rightarrow> 's result \<Rightarrow> bool" where
  "unless_self kw st P r \<longleftrightarrow> (if keyword_self kw then r = (Inl TypeError, st) else P r)"

text \<open>
  \<open>original_kept env w st b st'\<close>: a combinator on the instance \<open>w\<close> took the state \<open>st\<close> to
  \<open>st'\<close> and returned the instance \<open>b\<close>. Then \<open>b\<close> is not \<open>w\<close>, it is the one instance added,
  the attributes of \<open>w\<close> are what they were, and invoking \<open>w\<close> in \<open>st'\<close> calls the \<open>func\<close> and
  then the \<open>composed\<close> that \<open>w\<close> had in \<open>st\<close>.
\<close>

definition original_kept :: "'s env \<Rightarrow> nat \<Rightarrow> 's state \<Rightarrow> nat \<Rightarrow> 's state \<Rightarrow> bool" where
  "original_kept env w st b st' \<longleftrightarrow>
     b \<noteq> w \<and> adds_instance st b st' \<and> objs st' w = objs st w
     \<and> (\<forall>args kw. returns env (VRef w) args kw st' =
           unless_self kw st'
             (and_then (returns env (func (objs st w)) args kw st')
                (\<lambda>v s. returns env (composed (objs st w)) [v] [] s)))"

section \<open>An example environment\<close>

text \<open>
  Four plain functions, and a caller's state that logs every call of a plain function
  with its positional arguments: \<^verbatim>\<open>inc\<close> adds one, \<^verbatim>\<open>double\<close> doubles, \<^verbatim>\<open>numbers\<close> takes
  no argument and returns the list \<^verbatim>\<open>[1, 2, 3]\<close>, \<^verbatim>\<open>print\<close> accepts any positional
  arguments and returns \<^verbatim>\<open>None\<close>.
\<close>

definition ex_env :: "(string \<times> val list) list env" where
  "ex_env i args kw log =
     ((if i = ''inc'' then
         (case args of [VInt n] \<Rightarrow> Inr (VInt (n + 1)) | _ \<Rightarrow> Inl TypeError)
       else if i = ''double'' then
         (case args of [VInt n] \<Rightarrow> Inr (VInt (2 * n)) | _ \<Rightarrow> Inl TypeError)
       else if i = ''numbers'' then
         (case args of [] \<Rightarrow> Inr (VList [VInt 1, VInt 2, VInt 3]) | _ \<Rightarrow> Inl TypeError)
       else if i = ''print'' then Inr VNone
       else Inl (Raised ''NameError'')),
      log @ [(i, args)])"

definition ex_state :: "(string \<times> val list) list state" where
  "ex_state = import_module (empty_store [])"

text \<open>
  The state after \<^verbatim>\<open>w = exotic % print\<close>, where \<open>w\<close> is the instance at address 3, and the
  state after \<^verbatim>\<open>w * 7\<close> in it, which is the instance at address 4.
\<close>

definition ex_wrapped :: "(string \<times> val list) list state" where
  "ex_wrapped = snd (new_ExoticFunction (VFun ''print'') None ex_state)"

definition ex_partial :: "(string \<times> val list) list state" where
  "ex_partial = snd (mul 3 (VInt 7) ex_wrapped)"

section \<open>Properties of the evaluator\<close>

text \<open>A call that returns within some depth returns the same within any greater depth.\<close>

lemma call_Suc_mono:
  "call env n f args kw st = Some r \<Longrightarrow> call env (Suc n) f args kw st = Some r"
proof (induction n arbitrary: f args kw st r)
  case 0
  then show ?case by simp
next
  case (Suc n)
  have rc: "\<And>g as k s q. call env n g as k s = Some q \<Longrightarrow> call env (Suc n) g as k s = Some q"
    using Suc.IH by blast
  show ?case
  proof (cases f)
    case (VRef a)
    have unf: "call env (Suc m) (VRef a) args kw st =
        ExoticFunction_call (call env m) a args kw st" for m
      by simp
    show ?thesis
    proof (cases "keyword_self kw")
      case True
      then show ?thesis
        using Suc.prems unfolding VRef unf ExoticFunction_call_def by simp
    next
      case False
      have "then_call (call env n (func (objs st a)) args kw st)
         (\<lambda>r st'. call env n (composed (objs st a)) [r] [] st') = Some r"
        using Suc.prems False unfolding VRef unf ExoticFunction_call_def by simp
      then have "then_call (call env (Suc n) (func (objs st a)) args kw st)
         (\<lambda>r st'. call env (Suc n) (composed (objs st a)) [r] [] st') = Some r"
        using rc by (auto simp: then_call_def split: option.splits prod.splits sum.splits)
      then show ?thesis
        using False unfolding VRef unf ExoticFunction_call_def by (simp only: if_False)
    qed
  next
    case VDefUnpack
    then show ?thesis using Suc.prems rc
      apply (simp add: def_unpack_def split: sum.splits prod.splits)
      apply (auto simp: then_call_def split: option.splits prod.splits sum.splits)
      done
  next
    case VDefApply
    then show ?thesis using Suc.prems rc
      by (auto simp: def_apply_def split: sum.splits list.splits if_splits)
  next
    case (VPartial g as)
    then show ?thesis using Suc.prems rc by simp
  qed (use Suc.prems in simp_all)
qed

lemma call_add:
  "call env n f args kw st = Some r \<Longrightarrow> call env (n + k) f args kw st = Some r"
  by (induction k) (simp_all only: add_0_right add_Suc_right call_Suc_mono)

lemma call_mono:
  "call env n f args kw st = Some r \<Longrightarrow> n \<le> m \<Longrightarrow> call env m f args kw st = Some r"
  using call_add [of env n f args kw st r "m - n"] by simp

lemma returnsI: "call env n f args kw st = Some r \<Longrightarrow> returns env f args kw st r"
  by (auto simp: returns_def)

lemma returns_unique:
  assumes "returns env f args kw st r" and "returns env f args kw st r'"
  shows "r = r'"
proof -
  from assms obtain n m where n: "call env n f args kw st = Some r"
    and m: "call env m f args kw st = Some r'"
    by (auto simp: returns_def)
  have "call env (max n m) f args kw st = Some r" using n by (rule call_mono) simp
  moreover have "call env (max n m) f args kw st = Some r'" using m by (rule call_mono) simp
  ultimately show ?thesis by simp
qed

lemma call_not_0: "call env n f args kw st = Some r \<Longrightarrow> \<exists>m. n = Suc m"
  by (cases n) simp_all

lemma returns_Suc:
  "returns env f args kw st r \<longleftrightarrow> (\<exists>n. call env (Suc n) f args kw st = Some r)"
  unfolding returns_def by (metis call_not_0)

lemma returns_VFun [simp]:
  "returns env (VFun i) args kw st r \<longleftrightarrow> r = plain env i args kw st"
  by (auto simp: returns_Suc)

lemma returns_VLambdaId [simp]:
  "returns env VLambdaId args kw st r \<longleftrightarrow> r = (lambda_id args kw, st)"
  by (auto simp: returns_Suc)

lemma returns_VThunk [simp]:
  "returns env (VThunk a) args kw st r \<longleftrightarrow> r = (thunk a args kw, st)"
  by (auto simp: returns_Suc)

lemma returns_VDefIdentity [simp]:
  "returns env VDefIdentity args kw st r \<longleftrightarrow> r = (def_identity args kw, st)"
  by (auto simp: returns_Suc)

lemma returns_VDefExotic:
  "returns env VDefExotic args kw st r \<longleftrightarrow> def_exotic args kw st = Some r"
  by (auto simp: returns_Suc)

lemma returns_not_callable:
  "\<not> callable f \<Longrightarrow> returns env f args kw st r \<longleftrightarrow> r = (Inl TypeError, st)"
  by (cases f) (auto simp: returns_Suc)

lemma returns_VPartial [simp]:
  "returns env (VPartial g as) args kw st = returns env g (as @ args) kw st"
  unfolding returns_Suc [of _ "VPartial g as"] returns_def [of _ g] by simp

lemma keyword_self_Nil [simp]: "\<not> keyword_self []"
  by (simp add: keyword_self_def)

lemma keyword_self_Cons [simp]:
  "keyword_self ((k, v) # kw) \<longleftrightarrow> k = ''self'' \<or> keyword_self kw"
  by (simp add: keyword_self_def)

lemma returns_VRef_self:
  "keyword_self kw \<Longrightarrow> returns env (VRef w) args kw st r \<longleftrightarrow> r = (Inl TypeError, st)"
  by (auto simp: returns_Suc ExoticFunction_call_def)

lemma returns_VRef:
  assumes "\<not> keyword_self kw"
  shows "returns env (VRef w) args kw st =
     and_then (returns env (func (objs st w)) args kw st)
       (\<lambda>v st'. returns env (composed (objs st w)) [v] [] st')"
proof (rule ext, rule iffI)
  fix r
  assume "returns env (VRef w) args kw st r"
  then obtain n where "call env (Suc n) (VRef w) args kw st = Some r"
    by (auto simp: returns_Suc)
  then show "and_then (returns env (func (objs st w)) args kw st)
       (\<lambda>v st'. returns env (composed (objs st w)) [v] [] st') r"
    using assms
    by (auto simp: ExoticFunction_call_def then_call_def and_then_def
        split: option.splits prod.splits sum.splits dest!: returnsI)
next
  fix r
  assume "and_then (returns env (func (objs st w)) args kw st)
       (\<lambda>v st'. returns env (composed (objs st w)) [v] [] st') r"
  then consider (err) e st' where "returns env (func (objs st w)) args kw st (Inl e, st')"
      "r = (Inl e, st')"
    | (ok) v st' where "returns env (func (objs st w)) args kw st (Inr v, st')"
      "returns env (composed (objs st w)) [v] [] st' r"
    by (auto simp: and_then_def)
  then show "returns env (VRef w) args kw st r"
  proof cases
    case err
    then obtain n where "call env n (func (objs st w)) args kw st = Some (Inl e, st')"
      by (auto simp: returns_def)
    then have "call env (Suc n) (VRef w) args kw st = Some r"
      using err assms by (simp add: ExoticFunction_call_def then_call_def)
    then show ?thesis by (rule returnsI)
  next
    case ok
    then obtain n m where n: "call env n (func (objs st w)) args kw st = Some (Inr v, st')"
      and m: "call env m (composed (objs st w)) [v] [] st' = Some r"
      by (auto simp: returns_def)
    have "call env (max n m) (func (objs st w)) args kw st = Some (Inr v, st')"
      using n by (rule call_mono) simp
    moreover have "call env (max n m) (composed (objs st w)) [v] [] st' = Some r"
      using m by (rule call_mono) simp
    ultimately have "call env (Suc (max n m)) (VRef w) args kw st = Some r"
      using assms by (simp add: ExoticFunction_call_def then_call_def)
    then show ?thesis by (rule returnsI)
  qed
qed

lemma and_then_lambda_id [simp]:
  "and_then P (\<lambda>v st'. returns env VLambdaId [v] [] st') = P"
proof (rule ext)
  fix r :: "'a result"
  obtain x st where r: "r = (x, st)" by (cases r)
  show "and_then P (\<lambda>v st'. returns env VLambdaId [v] [] st') r = P r"
    unfolding r by (cases x) (auto simp: and_then_def lambda_id_def bind1_def)
qed

text \<open>A call only adds instances to the store: it changes none that exists.\<close>

lemma extends_refl [simp]: "extends st st"
  by (simp add: extends_def)

lemma extends_trans: "extends a b \<Longrightarrow> extends b c \<Longrightarrow> extends a c"
  by (auto simp: extends_def)

lemma extends_user [simp]: "extends st (st\<lparr>user := u\<rparr>)"
  by (simp add: extends_def)

lemma extends_new: "new_ExoticFunction f c st = (w, st') \<Longrightarrow> extends st st'"
  by (auto simp: new_ExoticFunction_def extends_def)

lemma extends_plain: "plain env i args kw st = (r, st') \<Longrightarrow> extends st st'"
  by (auto simp: plain_def split: prod.splits)

lemma call_extends:
  "call env n f args kw st = Some (r, st') \<Longrightarrow> extends st st'"
proof (induction n arbitrary: f args kw st r st')
  case 0
  then show ?case by simp
next
  case (Suc n)
  note IH = Suc.IH
  show ?case
  proof (cases f)
    case (VFun i)
    then show ?thesis using Suc.prems by (auto dest: extends_plain)
  next
    case (VPartial g as)
    then show ?thesis using Suc.prems IH by simp
  next
    case (VRef a)
    then show ?thesis using Suc.prems
      by (auto simp: ExoticFunction_call_def then_call_def
          split: option.splits prod.splits sum.splits if_splits dest!: IH
          intro: extends_trans)
  next
    case VDefExotic
    then show ?thesis using Suc.prems
      by (auto simp: def_exotic_def split: sum.splits prod.splits dest: extends_new)
  next
    case VDefUnpack
    then show ?thesis using Suc.prems
      by (auto simp: def_unpack_def then_call_def
          split: option.splits prod.splits sum.splits dest!: IH extends_new
          intro: extends_trans)
  next
    case VDefApply
    then show ?thesis using Suc.prems
      by (auto simp: def_apply_def split: sum.splits list.splits if_splits dest!: IH)
  qed (use Suc.prems in auto)
qed

lemma returns_extends: "returns env f args kw st (r, st') \<Longrightarrow> extends st st'"
  by (auto simp: returns_def dest: call_extends)

lemma extends_objs: "extends st st' \<Longrightarrow> a < next_addr st \<Longrightarrow> objs st' a = objs st a"
  by (simp add: extends_def)

lemma extends_imported: "extends st st' \<Longrightarrow> imported st \<Longrightarrow> imported st'"
  by (auto simp: extends_def imported_def)

lemma imported_import_module: "imported (import_module (empty_store u))"
  by (simp add: imported_def import_module_def empty_store_def new_ExoticFunction_def)

lemma and_then_cong:
  assumes "\<And>v st' r. P (Inr v, st') \<Longrightarrow> K v st' r = K' v st' r"
  shows "and_then P K = and_then P K'"
  using assms by (auto simp: and_then_def fun_eq_iff)

lemma and_then_plain:
  "and_then (\<lambda>r. r = x) K r \<longleftrightarrow>
     (case x of (Inl e, st) \<Rightarrow> r = (Inl e, st) | (Inr v, st) \<Rightarrow> K v st r)"
  by (auto simp: and_then_def split: prod.splits sum.splits)

lemma and_then_VFun:
  "and_then (returns env (VFun i) args kw st) K r \<longleftrightarrow>
     (case plain env i args kw st of (Inl e, s) \<Rightarrow> r = (Inl e, s) | (Inr v, s) \<Rightarrow> K v s r)"
  by (auto simp: and_then_def split: prod.splits sum.splits)

lemma returns_VDefApply:
  "returns env VDefApply args kw st r \<longleftrightarrow> (\<exists>n. def_apply (call env n) args kw st = Some r)"
  by (simp add: returns_Suc)

lemma returns_VDefUnpack:
  "returns env VDefUnpack args kw st r \<longleftrightarrow> (\<exists>n. def_unpack (call env n) args kw st = Some r)"
  by (simp add: returns_Suc)

lemma new_fresh: "new_ExoticFunction f c st = (a, st') \<Longrightarrow>
  a = next_addr st \<and> next_addr st' = Suc (next_addr st) \<and> user st' = user st \<and>
  objs st' = (objs st)(a := \<lparr>func = f, composed = (case c of None \<Rightarrow> VLambdaId | Some c' \<Rightarrow> c')\<rparr>)"
  by (auto simp: new_ExoticFunction_def)

lemma returns_built:
  assumes "objs st a = \<lparr>func = f, composed = VLambdaId\<rparr>" and "\<not> keyword_self kw"
  shows "returns env (VRef a) args kw st = returns env f args kw st"
  by (simp add: returns_VRef assms)

lemma returns_VRef_later:
  assumes "extends st s" and "w < next_addr st" and "\<not> keyword_self kw"
  shows "returns env (VRef w) args kw s =
     and_then (returns env (func (objs st w)) args kw s)
       (\<lambda>v s'. returns env (composed (objs st w)) [v] [] s')"
  using extends_objs [OF assms(1,2)] assms(3) by (simp add: returns_VRef)

lemma unless_self_no_self [simp]: "\<not> keyword_self kw \<Longrightarrow> unless_self kw st P = P"
  by (rule ext) (simp add: unless_self_def)

lemma unless_self_self [simp]:
  "keyword_self kw \<Longrightarrow> unless_self kw st P r \<longleftrightarrow> r = (Inl TypeError, st)"
  by (simp add: unless_self_def)

lemma returns_VRef_unless:
  "returns env (VRef w) args kw st =
     unless_self kw st
       (and_then (returns env (func (objs st w)) args kw st)
          (\<lambda>v st'. returns env (composed (objs st w)) [v] [] st'))"
proof (cases "keyword_self kw")
  case True
  then show ?thesis by (intro ext) (simp add: returns_VRef_self)
next
  case False
  then show ?thesis by (simp add: returns_VRef)
qed

lemma ex_state_user [simp]: "user ex_state = []"
  by (simp add: ex_state_def import_module_def empty_store_def new_ExoticFunction_def)

lemma ex_state_next [simp]: "next_addr ex_state = 3"
  by (simp add: ex_state_def import_module_def empty_store_def new_ExoticFunction_def)

lemma ex_state_imported [simp]: "imported ex_state"
  by (simp add: ex_state_def imported_import_module)

lemma ex_wrapped_new: "new_ExoticFunction (VFun ''print'') None ex_state = (3, ex_wrapped)"
  by (simp add: ex_wrapped_def new_ExoticFunction_def)

lemma ex_wrapped_simps [simp]:
  "objs ex_wrapped 3 = \<lparr>func = VFun ''print'', composed = VLambdaId\<rparr>"
  "next_addr ex_wrapped = 4" "user ex_wrapped = []"
  by (simp_all add: ex_wrapped_def new_ExoticFunction_def)

lemma ex_partial_mul: "mul 3 (VInt 7) ex_wrapped = (Inr 4, ex_partial)"
  by (simp add: ex_partial_def mul_def partial_def new_ExoticFunction_def)

lemma ex_partial_simps [simp]:
  "objs ex_partial 4 = \<lparr>func = VPartial (VFun ''print'') [VInt 7], composed = VLambdaId\<rparr>"
  "objs ex_partial 3 = \<lparr>func = VFun ''print'', composed = VLambdaId\<rparr>"
  "next_addr ex_partial = 5" "user ex_partial = []"
  by (simp_all add: ex_partial_def mul_def partial_def new_ExoticFunction_def)

section \<open>Invoking an instance\<close>

text \<open>
  Claim C1 says that an instance invoked with any keyword arguments returns what
  \<^verbatim>\<open>c(f(*args, **kwargs))\<close> returns. A keyword named \<^verbatim>\<open>self\<close> is bound by \<^verbatim>\<open>__call__\<close> itself.
  Here \<open>w\<close> is \<^verbatim>\<open>exotic % print\<close>: \<^verbatim>\<open>print(self=1)\<close> returns \<^verbatim>\<open>None\<close> and is logged, the
  identity returns it, but \<^verbatim>\<open>w(self=1)\<close> raises TypeError and \<^verbatim>\<open>print\<close> is not called.
\<close>

theorem invoke_with_keyword_self_is_not_composed_of_func:
  "func (objs ex_wrapped 3) = VFun ''print'' \<and> composed (objs ex_wrapped 3) = VLambdaId
   \<and> returns ex_env (VFun ''print'') [] [(''self'', VInt 1)] ex_wrapped
       (Inr VNone, ex_wrapped\<lparr>user := [(''print'', [])]\<rparr>)
   \<and> returns ex_env VLambdaId [VNone] [] (ex_wrapped\<lparr>user := [(''print'', [])]\<rparr>)
       (Inr VNone, ex_wrapped\<lparr>user := [(''print'', [])]\<rparr>)
   \<and> returns ex_env (VRef 3) [] [(''self'', VInt 1)] ex_wrapped (Inl TypeError, ex_wrapped)
   \<and> \<not> returns ex_env (VRef 3) [] [(''self'', VInt 1)] ex_wrapped
       (Inr VNone, ex_wrapped\<lparr>user := [(''print'', [])]\<rparr>)"
  by (simp add: returns_VRef_self plain_def ex_env_def lambda_id_def bind1_def)

text \<open>
  Claim C1, amended. Invoking an instance whose attributes are \<open>f\<close> and \<open>c\<close>, with any
  positional arguments and any keyword arguments none of which is named \<^verbatim>\<open>self\<close>, is the
  call of \<open>f\<close> on these arguments followed by the call of \<open>c\<close> on its result: it returns
  what \<^verbatim>\<open>c(f(*args, **kwargs))\<close> returns. With a keyword named \<^verbatim>\<open>self\<close> it raises TypeError
  and \<open>f\<close> is not called. The builder expression \<^verbatim>\<open>exotic % f\<close> returns a new instance whose
  attributes are \<open>f\<close> and \<^verbatim>\<open>lambda x: x\<close>, and invoking that instance, with no keyword named
  \<^verbatim>\<open>self\<close>, returns what \<^verbatim>\<open>f(*args, **kwargs)\<close> returns.
\<close>

theorem invoke_returns_composed_of_func:
  "(\<not> keyword_self kw \<longrightarrow>
      returns env (VRef w) args kw st =
        and_then (returns env (func (objs st w)) args kw st)
          (\<lambda>v st'. returns env (composed (objs st w)) [v] [] st'))
   \<and> (keyword_self kw \<longrightarrow>
        (returns env (VRef w) args kw st r \<longleftrightarrow> r = (Inl TypeError, st)))
   \<and> (case new_ExoticFunction f None st of
        (b, st1) \<Rightarrow>
          (\<forall>n. builder_mod (call env (Suc n)) exotic f st = Some (Inr (VRef b), st1))
          \<and> objs st1 b = \<lparr>func = f, composed = VLambdaId\<rparr>
          \<and> (\<not> keyword_self kw \<longrightarrow>
               returns env (VRef b) args kw st1 = returns env f args kw st1))"
proof -
  obtain b st1 where new: "new_ExoticFunction f None st = (b, st1)"
    by (cases "new_ExoticFunction f None st")
  have build: "builder_mod (call env (Suc n)) exotic f st = Some (Inr (VRef b), st1)" for n
    using new by (simp add: builder_mod_def exotic_def def_exotic_def bind1_def)
  have attrs: "objs st1 b = \<lparr>func = f, composed = VLambdaId\<rparr>"
    using new by (auto simp: new_ExoticFunction_def)
  have "returns env (VRef b) args kw st1 = returns env f args kw st1" if "\<not> keyword_self kw"
    using that by (simp add: returns_VRef attrs)
  with build attrs show ?thesis
    by (simp add: new returns_VRef returns_VRef_self)
qed

theorem invoke_returns_composed_of_func_witness:
  "\<not> keyword_self [(''sep'', VStr '', '')]
   \<and> returns ex_env (VRef 3) [VInt 1, VInt 2] [(''sep'', VStr '', '')] ex_wrapped
       (Inr VNone, ex_wrapped\<lparr>user := [(''print'', [VInt 1, VInt 2])]\<rparr>)
   \<and> keyword_self [(''self'', VInt 1)]
   \<and> returns ex_env (VRef 3) [] [(''self'', VInt 1)] ex_wrapped (Inl TypeError, ex_wrapped)
   \<and> builder_mod (call ex_env (Suc 0)) exotic (VFun ''print'') ex_state
       = Some (Inr (VRef 3), ex_wrapped)
   \<and> returns ex_env (VRef 3) [VInt 1, VInt 2] [(''sep'', VStr '', '')] ex_wrapped
       = returns ex_env (VFun ''print'') [VInt 1, VInt 2] [(''sep'', VStr '', '')] ex_wrapped"
proof -
  have k1: "\<not> keyword_self [(''sep'', VStr '', '')]" by simp
  have k2: "keyword_self [(''self'', VInt 1)]" by simp
  note i1 = invoke_returns_composed_of_func [of "[(''sep'', VStr '', '')]" ex_env 3
      "[VInt 1, VInt 2]" ex_wrapped _ "VFun ''print''"]
  note i2 = invoke_returns_composed_of_func [of "[(''self'', VInt 1)]" ex_env 3 "[]" ex_wrapped
      "(Inl TypeError, ex_wrapped)" "VFun ''print''"]
  note i3 = invoke_returns_composed_of_func [of "[(''sep'', VStr '', '')]" ex_env 3
      "[VInt 1, VInt 2]" ex_state _ "VFun ''print''"]
  have "returns ex_env (VRef 3) [VInt 1, VInt 2] [(''sep'', VStr '', '')] ex_wrapped =
        and_then (returns ex_env (func (objs ex_wrapped 3)) [VInt 1, VInt 2]
            [(''sep'', VStr '', '')] ex_wrapped)
          (\<lambda>v st'. returns ex_env (composed (objs ex_wrapped 3)) [v] [] st')"
    using i1 k1 by blast
  then have 1: "returns ex_env (VRef 3) [VInt 1, VInt 2] [(''sep'', VStr '', '')] ex_wrapped
       (Inr VNone, ex_wrapped\<lparr>user := [(''print'', [VInt 1, VInt 2])]\<rparr>)"
    by (simp add: plain_def ex_env_def)
  have 2: "returns ex_env (VRef 3) [] [(''self'', VInt 1)] ex_wrapped (Inl TypeError, ex_wrapped)"
    using i2 k2 by blast
  have 3: "builder_mod (call ex_env (Suc 0)) exotic (VFun ''print'') ex_state
       = Some (Inr (VRef 3), ex_wrapped)"
    using i3 by (simp add: ex_wrapped_new)
  have 4: "returns ex_env (VRef 3) [VInt 1, VInt 2] [(''sep'', VStr '', '')] ex_wrapped
       = returns ex_env (VFun ''print'') [VInt 1, VInt 2] [(''sep'', VStr '', '')] ex_wrapped"
    using i3 k1 by (simp add: ex_wrapped_new)
  from k1 1 k2 2 3 4 show ?thesis by blast
qed

text \<open>
  Claim C8 says that an invocation raises only if \<open>func\<close> or \<open>composed\<close> raises. With a
  keyword named \<^verbatim>\<open>self\<close> the invocation raises TypeError although neither is called: here
  \<open>w\<close> is \<^verbatim>\<open>exotic % print\<close>, \<^verbatim>\<open>w(self=1)\<close> raises TypeError, while \<^verbatim>\<open>print(self=1)\<close> does not
  raise and the identity on its result does not raise.
\<close>

theorem invoke_raises_while_func_and_composed_return:
  "returns ex_env (VRef 3) [] [(''self'', VInt 1)] ex_wrapped (Inl TypeError, ex_wrapped)
   \<and> \<not> returns ex_env (func (objs ex_wrapped 3)) [] [(''self'', VInt 1)] ex_wrapped
       (Inl TypeError, ex_wrapped)
   \<and> returns ex_env (func (objs ex_wrapped 3)) [] [(''self'', VInt 1)] ex_wrapped
       (Inr VNone, ex_wrapped\<lparr>user := [(''print'', [])]\<rparr>)
   \<and> \<not> returns ex_env (composed (objs ex_wrapped 3)) [VNone] []
       (ex_wrapped\<lparr>user := [(''print'', [])]\<rparr>) (Inl TypeError, ex_wrapped)"
  by (simp add: returns_VRef_self plain_def ex_env_def lambda_id_def bind1_def)

text \<open>
  Claim C8, amended. Invoked with keyword arguments none of which is named \<^verbatim>\<open>self\<close>, an
  instance raises an error exactly when the call of its \<open>func\<close> raises that error, or that
  call returns a value and the call of its \<open>composed\<close> on the value raises that error; the
  error and the state are the ones of the call that raised. Invoked with a keyword named
  \<^verbatim>\<open>self\<close>, it raises TypeError, the state is unchanged and \<open>func\<close> is not called.
\<close>

theorem invoke_raises_iff_func_or_composed_raises:
  "(\<not> keyword_self kw \<longrightarrow>
      (returns env (VRef w) args kw st (Inl e, st') \<longleftrightarrow>
         returns env (func (objs st w)) args kw st (Inl e, st')
         \<or> (\<exists>v st1. returns env (func (objs st w)) args kw st (Inr v, st1)
               \<and> returns env (composed (objs st w)) [v] [] st1 (Inl e, st'))))
   \<and> (keyword_self kw \<longrightarrow>
        (returns env (VRef w) args kw st r \<longleftrightarrow> r = (Inl TypeError, st)))"
  by (auto simp: returns_VRef returns_VRef_self and_then_def)

theorem invoke_raises_iff_func_or_composed_raises_witness:
  "\<not> keyword_self []
   \<and> returns ex_env (func (objs ex_state 1)) [] [] ex_state (Inl IndexError, ex_state)
   \<and> returns ex_env (VRef 1) [] [] ex_state (Inl IndexError, ex_state)
   \<and> keyword_self [(''self'', VInt 1)]
   \<and> returns ex_env (VRef 1) [] [(''self'', VInt 1)] ex_state (Inl TypeError, ex_state)"
proof -
  have k1: "\<not> keyword_self []" by simp
  have k2: "keyword_self [(''self'', VInt 1)]" by simp
  have f: "func (objs ex_state 1) = VDefApply"
    using ex_state_imported by (simp add: imported_def)
  have "call ex_env (Suc 0) VDefApply [] [] ex_state = Some (Inl IndexError, ex_state)"
    by (simp add: def_apply_def bind_kwonly_def bind1_def)
  then have 1: "returns ex_env (func (objs ex_state 1)) [] [] ex_state
      (Inl IndexError, ex_state)"
    unfolding f by (rule returnsI)
  have 2: "returns ex_env (VRef 1) [] [] ex_state (Inl IndexError, ex_state)"
    using invoke_raises_iff_func_or_composed_raises [of "[]" ex_env 1 "[]" ex_state
        IndexError ex_state] k1 1
    by blast
  have 3: "returns ex_env (VRef 1) [] [(''self'', VInt 1)] ex_state (Inl TypeError, ex_state)"
    using invoke_raises_iff_func_or_composed_raises [of "[(''self'', VInt 1)]" ex_env 1 "[]"
        ex_state _ _ "(Inl TypeError, ex_state)"] k2
    by blast
  from k1 1 2 k2 3 show ?thesis by blast
qed

section \<open>Composition\<close>

text \<open>
  Claim C2. For every instance \<open>w\<close> and value \<open>g\<close>, \<^verbatim>\<open>w @ g\<close> is a new instance whose
  \<open>func\<close> is \<open>g\<close> and whose \<open>composed\<close> is \<open>w\<close> itself, so that invoking it calls \<open>g\<close> on
  the arguments and then \<open>w\<close> on the result (unless a keyword is named \<^verbatim>\<open>self\<close>, which
  raises TypeError). For the instance that \<^verbatim>\<open>exotic % f\<close> builds,
  invoking \<^verbatim>\<open>(exotic % f) @ g\<close> with one argument \<open>x\<close> returns what \<^verbatim>\<open>f(g(x))\<close> returns.
\<close>

theorem matmul_applies_g_then_self:
  "(matmul w g st = (b, st') \<longrightarrow>
      objs st' b = \<lparr>func = g, composed = VRef w\<rparr>
      \<and> returns env (VRef b) args kw st' =
          unless_self kw st'
            (and_then (returns env g args kw st') (\<lambda>v s. returns env (VRef w) [v] [] s)))
   \<and> (new_ExoticFunction f None st0 = (a, st1) \<and> matmul a g st1 = (c, st2) \<longrightarrow>
      returns env (VRef c) [x] [] st2 =
        and_then (returns env g [x] [] st2) (\<lambda>v s. returns env f [v] [] s))"
proof (intro conjI impI)
  assume m: "matmul w g st = (b, st')"
  then show attrs: "objs st' b = \<lparr>func = g, composed = VRef w\<rparr>"
    by (auto simp: matmul_def new_ExoticFunction_def)
  show "returns env (VRef b) args kw st' =
          unless_self kw st'
            (and_then (returns env g args kw st') (\<lambda>v s. returns env (VRef w) [v] [] s))"
    by (simp add: returns_VRef_unless [of env b] attrs)
next
  assume "new_ExoticFunction f None st0 = (a, st1) \<and> matmul a g st1 = (c, st2)"
  then have n: "new_ExoticFunction f None st0 = (a, st1)" and m: "matmul a g st1 = (c, st2)"
    by simp_all
  have a: "objs st2 a = \<lparr>func = f, composed = VLambdaId\<rparr>" "a < next_addr st2"
    and c: "objs st2 c = \<lparr>func = g, composed = VRef a\<rparr>"
    using n m by (auto simp: matmul_def new_ExoticFunction_def)
  have "returns env (VRef a) [v] [] s = returns env f [v] [] s"
    if "returns env g [x] [] st2 (Inr v, s)" for v s
  proof -
    have "objs s a = objs st2 a"
      using returns_extends [OF that] a(2) by (rule extends_objs)
    then show ?thesis using a(1) by (simp add: returns_built)
  qed
  then have "and_then (returns env g [x] [] st2) (\<lambda>v s. returns env (VRef a) [v] [] s) =
      and_then (returns env g [x] [] st2) (\<lambda>v s. returns env f [v] [] s)"
    by (intro and_then_cong) simp
  then show "returns env (VRef c) [x] [] st2 =
        and_then (returns env g [x] [] st2) (\<lambda>v s. returns env f [v] [] s)"
    by (simp add: returns_VRef [of _ env c] c)
qed

theorem matmul_applies_g_then_self_witness:
  "(case new_ExoticFunction (VFun ''inc'') None ex_state of (a, st1) \<Rightarrow>
      case matmul a (VFun ''double'') st1 of (c, st2) \<Rightarrow>
        objs st2 c = \<lparr>func = VFun ''double'', composed = VRef a\<rparr>
        \<and> returns ex_env (VRef c) [VInt 3] [] st2
            (Inr (VInt 7), st2\<lparr>user := [(''double'', [VInt 3]), (''inc'', [VInt 6])]\<rparr>))"
proof -
  obtain a st1 where n: "new_ExoticFunction (VFun ''inc'') None ex_state = (a, st1)"
    by (cases "new_ExoticFunction (VFun ''inc'') None ex_state")
  obtain c st2 where m: "matmul a (VFun ''double'') st1 = (c, st2)"
    by (cases "matmul a (VFun ''double'') st1")
  have u: "user st2 = []"
    using n m by (auto simp: matmul_def new_ExoticFunction_def ex_state_def
        import_module_def empty_store_def)
  note inst = matmul_applies_g_then_self [of a "VFun ''double''" st1 c st2 ex_env "[VInt 3]" "[]"
      "VFun ''inc''" ex_state a st1 c st2 "VInt 3"]
  have "objs st2 c = \<lparr>func = VFun ''double'', composed = VRef a\<rparr>"
    using inst n m by blast
  moreover have "returns ex_env (VRef c) [VInt 3] [] st2 =
        and_then (returns ex_env (VFun ''double'') [VInt 3] [] st2) (\<lambda>v s. returns ex_env (VFun ''inc'') [v] [] s)"
    using inst n m by blast
  ultimately show ?thesis
    by (simp add: n m and_then_VFun plain_def ex_env_def u)
qed

text \<open>
  Claim C7. For the instance \<open>c\<close> that \<^verbatim>\<open>(exotic % f) @ g @ h\<close> builds, invoking it with one
  argument \<open>x\<close> returns what \<^verbatim>\<open>f(g(h(x)))\<close> returns. The three instances are distinct and
  each composition refers to the one before it: the representation is a chain of three
  layers, not a single collapsed instance.
\<close>

theorem matmul_chain_applies_innermost_first:
  "new_ExoticFunction f None st0 = (a, st1) \<and> matmul a g st1 = (b, st2)
     \<and> matmul b h st2 = (c, st3) \<longrightarrow>
   objs st3 a = \<lparr>func = f, composed = VLambdaId\<rparr>
   \<and> objs st3 b = \<lparr>func = g, composed = VRef a\<rparr>
   \<and> objs st3 c = \<lparr>func = h, composed = VRef b\<rparr>
   \<and> a < b \<and> b < c
   \<and> returns env (VRef c) [x] [] st3 =
       and_then (returns env h [x] [] st3)
         (\<lambda>u s. and_then (returns env g [u] [] s) (\<lambda>v s'. returns env f [v] [] s'))"
proof (intro impI)
  assume "new_ExoticFunction f None st0 = (a, st1) \<and> matmul a g st1 = (b, st2)
     \<and> matmul b h st2 = (c, st3)"
  then have n: "new_ExoticFunction f None st0 = (a, st1)"
    and m1: "matmul a g st1 = (b, st2)" and m2: "matmul b h st2 = (c, st3)"
    by simp_all
  have a: "objs st3 a = \<lparr>func = f, composed = VLambdaId\<rparr>"
    and b: "objs st3 b = \<lparr>func = g, composed = VRef a\<rparr>"
    and c: "objs st3 c = \<lparr>func = h, composed = VRef b\<rparr>"
    and lt: "a < b" "b < c" "c < next_addr st3"
    using n m1 m2 by (auto simp: matmul_def new_ExoticFunction_def)
  have inner: "returns env (VRef a) [v] [] s' = returns env f [v] [] s'"
    if "extends st3 s'" for v s'
    using returns_VRef_later [OF that, of a "[]"] lt a by simp
  have middle: "returns env (VRef b) [u] [] s =
      and_then (returns env g [u] [] s) (\<lambda>v s'. returns env f [v] [] s')"
    if s: "extends st3 s" for u s
  proof -
    have "returns env (VRef b) [u] [] s =
        and_then (returns env g [u] [] s) (\<lambda>v s'. returns env (VRef a) [v] [] s')"
      using returns_VRef_later [OF s, of b "[]"] lt b by simp
    also have "\<dots> = and_then (returns env g [u] [] s) (\<lambda>v s'. returns env f [v] [] s')"
    proof (rule and_then_cong)
      fix v s' r
      assume "returns env g [u] [] s (Inr v, s')"
      then have "extends st3 s'"
        using s by (blast intro: extends_trans dest: returns_extends)
      then show "returns env (VRef a) [v] [] s' r = returns env f [v] [] s' r"
        by (simp add: inner)
    qed
    finally show ?thesis .
  qed
  have "returns env (VRef c) [x] [] st3 =
      and_then (returns env h [x] [] st3) (\<lambda>u s. returns env (VRef b) [u] [] s)"
    by (simp add: returns_VRef [of _ env c] c)
  also have "\<dots> = and_then (returns env h [x] [] st3)
         (\<lambda>u s. and_then (returns env g [u] [] s) (\<lambda>v s'. returns env f [v] [] s'))"
    by (rule and_then_cong) (simp add: middle returns_extends)
  finally show "objs st3 a = \<lparr>func = f, composed = VLambdaId\<rparr>
   \<and> objs st3 b = \<lparr>func = g, composed = VRef a\<rparr>
   \<and> objs st3 c = \<lparr>func = h, composed = VRef b\<rparr>
   \<and> a < b \<and> b < c
   \<and> returns env (VRef c) [x] [] st3 =
       and_then (returns env h [x] [] st3)
         (\<lambda>u s. and_then (returns env g [u] [] s) (\<lambda>v s'. returns env f [v] [] s'))"
    using a b c lt by simp
qed

theorem matmul_chain_applies_innermost_first_witness:
  "(case new_ExoticFunction (VFun ''inc'') None ex_state of (a, st1) \<Rightarrow>
      case matmul a (VFun ''double'') st1 of (b, st2) \<Rightarrow>
      case matmul b (VFun ''inc'') st2 of (c, st3) \<Rightarrow>
        a < b \<and> b < c
        \<and> returns ex_env (VRef c) [VInt 3] [] st3
            (Inr (VInt 9),
             st3\<lparr>user := [(''inc'', [VInt 3]), (''double'', [VInt 4]), (''inc'', [VInt 8])]\<rparr>))"
proof -
  obtain a st1 where n: "new_ExoticFunction (VFun ''inc'') None ex_state = (a, st1)"
    by (cases "new_ExoticFunction (VFun ''inc'') None ex_state")
  obtain b st2 where m1: "matmul a (VFun ''double'') st1 = (b, st2)"
    by (cases "matmul a (VFun ''double'') st1")
  obtain c st3 where m2: "matmul b (VFun ''inc'') st2 = (c, st3)"
    by (cases "matmul b (VFun ''inc'') st2")
  have u: "user st3 = []"
    using n m1 m2 by (auto simp: matmul_def new_ExoticFunction_def ex_state_def
        import_module_def empty_store_def)
  note inst = matmul_chain_applies_innermost_first [of "VFun ''inc''" ex_state a st1
      "VFun ''double''" b st2 "VFun ''inc''" c st3 ex_env "VInt 3"]
  have "a < b" "b < c"
    using inst n m1 m2 by blast+
  moreover have "returns ex_env (VRef c) [VInt 3] [] st3 =
       and_then (returns ex_env (VFun ''inc'') [VInt 3] [] st3)
         (\<lambda>u s. and_then (returns ex_env (VFun ''double'') [u] [] s)
            (\<lambda>v s'. returns ex_env (VFun ''inc'') [v] [] s'))"
    using inst n m1 m2 by blast
  ultimately show ?thesis
    by (simp add: n m1 m2 and_then_VFun plain_def ex_env_def u)
qed

section \<open>Partial application\<close>

text \<open>
  \<^verbatim>\<open>__mul__\<close> calls \<^verbatim>\<open>partial\<close> at once, so on an instance whose \<open>func\<close> is not callable it
  raises TypeError and builds nothing.
\<close>

lemma mul_not_callable:
  "\<not> callable (func (objs st w)) \<Longrightarrow> mul w a st = (Inl TypeError, st)"
  by (simp add: mul_def partial_def)

lemma mul_callable:
  assumes "callable (func (objs st w))"
  shows "mul w a st =
     (case new_ExoticFunction (VPartial (func (objs st w)) [a]) (Some (composed (objs st w))) st
      of (b, st') \<Rightarrow> (Inr b, st'))"
  using assms by (simp add: mul_def partial_def)

text \<open>
  Claim C3 says that the new instance, invoked later with further positional and keyword
  arguments, calls \<^verbatim>\<open>f(a, *args, **kwargs)\<close>. A keyword named \<^verbatim>\<open>self\<close> does not reach \<open>f\<close>.
  Here \<open>w\<close> is \<^verbatim>\<open>exotic % print\<close> and the new instance is \<^verbatim>\<open>w * 7\<close>: \<^verbatim>\<open>print(7, self=1)\<close>
  returns \<^verbatim>\<open>None\<close> and is logged, but \<^verbatim>\<open>(w * 7)(self=1)\<close> raises TypeError and \<^verbatim>\<open>print\<close> is
  not called.
\<close>

theorem mul_instance_with_keyword_self_does_not_call_func:
  "mul 3 (VInt 7) ex_wrapped = (Inr 4, ex_partial)
   \<and> returns ex_env (VFun ''print'') [VInt 7] [(''self'', VInt 1)] ex_partial
       (Inr VNone, ex_partial\<lparr>user := [(''print'', [VInt 7])]\<rparr>)
   \<and> returns ex_env (VRef 4) [] [(''self'', VInt 1)] ex_partial (Inl TypeError, ex_partial)
   \<and> \<not> returns ex_env (VRef 4) [] [(''self'', VInt 1)] ex_partial
       (Inr VNone, ex_partial\<lparr>user := [(''print'', [VInt 7])]\<rparr>)"
  by (simp add: ex_partial_mul returns_VRef_self plain_def ex_env_def)

text \<open>
  Claim C3, amended. For every instance \<open>w\<close> whose \<open>func\<close> is a callable \<open>f\<close>, and every value
  \<open>a\<close>, \<^verbatim>\<open>w * a\<close> is a new instance whose \<open>func\<close> is \<^verbatim>\<open>partial(f, a)\<close>, which called with
  further positional and keyword arguments calls \<open>f\<close> with \<open>a\<close> in front of them, and whose
  \<open>composed\<close> is the \<open>composed\<close> of \<open>w\<close>, not \<open>w\<close>. \<^verbatim>\<open>w << a\<close> is the same. Invoking the new
  instance with further arguments, no keyword being named \<^verbatim>\<open>self\<close>, calls
  \<^verbatim>\<open>f(a, *args, **kwargs)\<close> and then the \<open>composed\<close> of \<open>w\<close>; with a keyword named \<^verbatim>\<open>self\<close> it
  raises TypeError and \<open>f\<close> is not called. For the instance that \<^verbatim>\<open>exotic % f\<close> builds,
  invoking \<^verbatim>\<open>(exotic % f) * a\<close> with no positional argument and no keyword named \<^verbatim>\<open>self\<close>
  returns what \<^verbatim>\<open>f(a)\<close> returns.
\<close>

theorem mul_binds_first_argument:
  "(callable (func (objs st w)) \<longrightarrow>
      (\<exists>b st'. mul w a st = (Inr b, st') \<and> lshift w a st = (Inr b, st')
         \<and> objs st' b = \<lparr>func = VPartial (func (objs st w)) [a], composed = composed (objs st w)\<rparr>
         \<and> (\<forall>args kw s. returns env (func (objs st' b)) args kw s =
               returns env (func (objs st w)) (a # args) kw s)
         \<and> (\<forall>args kw. returns env (VRef b) args kw st' =
               unless_self kw st'
                 (and_then (returns env (func (objs st w)) (a # args) kw st')
                    (\<lambda>v s. returns env (composed (objs st w)) [v] [] s)))))
   \<and> (new_ExoticFunction f None st0 = (c, st1) \<and> mul c a st1 = (Inr d, st2) \<longrightarrow>
        returns env (VRef d) [] kw st2 = unless_self kw st2 (returns env f [a] kw st2))"
proof (intro conjI impI)
  assume cl: "callable (func (objs st w))"
  obtain b st' where n: "new_ExoticFunction (VPartial (func (objs st w)) [a])
      (Some (composed (objs st w))) st = (b, st')"
    by (cases "new_ExoticFunction (VPartial (func (objs st w)) [a])
      (Some (composed (objs st w))) st")
  have m: "mul w a st = (Inr b, st')"
    using cl n by (simp add: mul_callable)
  have attrs: "objs st' b =
      \<lparr>func = VPartial (func (objs st w)) [a], composed = composed (objs st w)\<rparr>"
    using n by (auto simp: new_ExoticFunction_def)
  have "\<forall>args kw. returns env (VRef b) args kw st' =
               unless_self kw st'
                 (and_then (returns env (func (objs st w)) (a # args) kw st')
                    (\<lambda>v s. returns env (composed (objs st w)) [v] [] s))"
    by (simp add: returns_VRef_unless [of env b] attrs)
  then show "\<exists>b st'. mul w a st = (Inr b, st') \<and> lshift w a st = (Inr b, st')
         \<and> objs st' b = \<lparr>func = VPartial (func (objs st w)) [a], composed = composed (objs st w)\<rparr>
         \<and> (\<forall>args kw s. returns env (func (objs st' b)) args kw s =
               returns env (func (objs st w)) (a # args) kw s)
         \<and> (\<forall>args kw. returns env (VRef b) args kw st' =
               unless_self kw st'
                 (and_then (returns env (func (objs st w)) (a # args) kw st')
                    (\<lambda>v s. returns env (composed (objs st w)) [v] [] s)))"
    using m attrs by (intro exI [of _ b] exI [of _ st']) (simp add: lshift_def)
next
  assume "new_ExoticFunction f None st0 = (c, st1) \<and> mul c a st1 = (Inr d, st2)"
  then have n: "new_ExoticFunction f None st0 = (c, st1)" and m: "mul c a st1 = (Inr d, st2)"
    by simp_all
  have c: "objs st1 c = \<lparr>func = f, composed = VLambdaId\<rparr>"
    using n by (auto simp: new_ExoticFunction_def)
  have "objs st2 d = \<lparr>func = VPartial f [a], composed = VLambdaId\<rparr>"
    using m c by (auto simp: mul_def partial_def new_ExoticFunction_def split: if_splits)
  then show "returns env (VRef d) [] kw st2 = unless_self kw st2 (returns env f [a] kw st2)"
    by (simp add: returns_VRef_unless [of env d])
qed

theorem mul_binds_first_argument_witness:
  "callable (VFun ''inc'') \<and>
   (case new_ExoticFunction (VFun ''inc'') None ex_state of (c, st1) \<Rightarrow>
      case mul c (VInt 3) st1 of (r, st2) \<Rightarrow>
        (\<exists>d. r = Inr d \<and> lshift c (VInt 3) st1 = (Inr d, st2)
           \<and> objs st2 d = \<lparr>func = VPartial (VFun ''inc'') [VInt 3], composed = VLambdaId\<rparr>
           \<and> returns ex_env (VRef d) [] [] st2
               (Inr (VInt 4), st2\<lparr>user := [(''inc'', [VInt 3])]\<rparr>)
           \<and> returns ex_env (VRef d) [] [(''self'', VInt 1)] st2 (Inl TypeError, st2)))"
proof -
  obtain c st1 where n: "new_ExoticFunction (VFun ''inc'') None ex_state = (c, st1)"
    by (cases "new_ExoticFunction (VFun ''inc'') None ex_state")
  have c: "objs st1 c = \<lparr>func = VFun ''inc'', composed = VLambdaId\<rparr>"
    using n by (auto simp: new_ExoticFunction_def)
  then have cl: "callable (func (objs st1 c))" by simp
  note inst = mul_binds_first_argument [of st1 c "VInt 3" ex_env "VFun ''inc''" ex_state c st1]
  from inst cl obtain d st2 where m: "mul c (VInt 3) st1 = (Inr d, st2)"
    and l: "lshift c (VInt 3) st1 = (Inr d, st2)"
    and d: "objs st2 d = \<lparr>func = VPartial (func (objs st1 c)) [VInt 3],
        composed = composed (objs st1 c)\<rparr>"
    by blast
  have u: "user st2 = []"
    using n m c by (auto simp: mul_def partial_def new_ExoticFunction_def)
  have "returns ex_env (VRef d) [] [] st2 =
      unless_self [] st2 (returns ex_env (VFun ''inc'') [VInt 3] [] st2)"
    using inst [of d st2 "[]"] n m by blast
  moreover have "returns ex_env (VRef d) [] [(''self'', VInt 1)] st2 =
      unless_self [(''self'', VInt 1)] st2
        (returns ex_env (VFun ''inc'') [VInt 3] [(''self'', VInt 1)] st2)"
    using inst [of d st2 "[(''self'', VInt 1)]"] n m by blast
  ultimately show ?thesis
    using l d c by (simp add: n m plain_def ex_env_def u)
qed

section \<open>The thunk of \<^verbatim>\<open>>>\<close>\<close>

lemma thunk_no_args [simp]: "thunk a [] [] = Inr a"
  by (simp add: thunk_def bind_kwonly_def bind1_def)

lemma thunk_positional [simp]: "args \<noteq> [] \<Longrightarrow> thunk a args kw = Inl TypeError"
  by (simp add: thunk_def)

lemma thunk_keyword [simp]: "thunk a [] [(''_ExoticFunction__x'', b)] = Inr b"
  by (simp add: thunk_def bind_kwonly_def bind1_def)

lemma thunk_other_keyword:
  "list_ex (\<lambda>(k, v). k \<noteq> ''_ExoticFunction__x'') kw \<Longrightarrow> thunk a args kw = Inl TypeError"
  by (simp add: thunk_def bind_kwonly_def bind1_def)

text \<open>
  Claim C4 says that the thunk returns the wrapped value whenever it is called with no
  positional argument, whatever it is called with. The parameter that holds the value is
  an ordinary keyword-only parameter: a call that passes it by keyword replaces the
  value. Here the thunk wraps 1 and returns 2.
\<close>

theorem thunk_keyword_overrides_capture:
  "returns ex_env (VThunk (VInt 1)) [] [(''_ExoticFunction__x'', VInt 2)] ex_state
     (Inr (VInt 2), ex_state)
   \<and> \<not> returns ex_env (VThunk (VInt 1)) [] [(''_ExoticFunction__x'', VInt 2)] ex_state
     (Inr (VInt 1), ex_state)"
  by simp

text \<open>
  Claim C4, amended. \<^verbatim>\<open>w >> a\<close> is \<^verbatim>\<open>w * t\<close> for a thunk \<open>t\<close> that wraps \<open>a\<close>. Called with no
  argument at all, \<open>t\<close> returns \<open>a\<close>. Called with a positional argument, or with a keyword
  other than its own parameter, it raises TypeError. Called with its own parameter
  \<^verbatim>\<open>_ExoticFunction__x\<close> by keyword, it returns the value passed.
\<close>

theorem rshift_is_mul_of_thunk:
  "rshift w a st = mul w (VThunk a) st
   \<and> (returns env (VThunk a) [] [] s r \<longleftrightarrow> r = (Inr a, s))
   \<and> (args \<noteq> [] \<longrightarrow> (returns env (VThunk a) args kw s r \<longleftrightarrow> r = (Inl TypeError, s)))
   \<and> (list_ex (\<lambda>(k, v). k \<noteq> ''_ExoticFunction__x'') kw \<longrightarrow>
        (returns env (VThunk a) args kw s r \<longleftrightarrow> r = (Inl TypeError, s)))
   \<and> (returns env (VThunk a) [] [(''_ExoticFunction__x'', b)] s r \<longleftrightarrow> r = (Inr b, s))"
  by (simp add: rshift_def thunk_other_keyword)

theorem rshift_is_mul_of_thunk_witness:
  "rshift 0 (VInt 7) ex_state = mul 0 (VThunk (VInt 7)) ex_state
   \<and> returns ex_env (VThunk (VInt 7)) [] [] ex_state (Inr (VInt 7), ex_state)
   \<and> [VInt 0] \<noteq> []
   \<and> returns ex_env (VThunk (VInt 7)) [VInt 0] [] ex_state (Inl TypeError, ex_state)
   \<and> list_ex (\<lambda>(k, v). k \<noteq> ''_ExoticFunction__x'') [(''__x'', VInt 5)]
   \<and> returns ex_env (VThunk (VInt 7)) [] [(''__x'', VInt 5)] ex_state (Inl TypeError, ex_state)
   \<and> returns ex_env (VThunk (VInt 7)) [] [(''_ExoticFunction__x'', VInt 5)] ex_state
       (Inr (VInt 5), ex_state)"
proof -
  note a = rshift_is_mul_of_thunk [of 0 "VInt 7" ex_state ex_env ex_state
      "(Inr (VInt 7), ex_state)" "[VInt 0]" "[]" "VInt 5"]
  note b = rshift_is_mul_of_thunk [of 0 "VInt 7" ex_state ex_env ex_state
      "(Inl TypeError, ex_state)" "[VInt 0]" "[]" "VInt 5"]
  note c = rshift_is_mul_of_thunk [of 0 "VInt 7" ex_state ex_env ex_state
      "(Inl TypeError, ex_state)" "[]" "[(''__x'', VInt 5)]" "VInt 5"]
  note d = rshift_is_mul_of_thunk [of 0 "VInt 7" ex_state ex_env ex_state
      "(Inr (VInt 5), ex_state)" "[]" "[]" "VInt 5"]
  have 1: "rshift 0 (VInt 7) ex_state = mul 0 (VThunk (VInt 7)) ex_state"
    and 2: "returns ex_env (VThunk (VInt 7)) [] [] ex_state (Inr (VInt 7), ex_state)"
    using a by blast+
  have ne: "[VInt 0] \<noteq> []" by simp
  have 3: "returns ex_env (VThunk (VInt 7)) [VInt 0] [] ex_state (Inl TypeError, ex_state)"
    using b ne by blast
  have le: "list_ex (\<lambda>(k, v). k \<noteq> ''_ExoticFunction__x'') [(''__x'', VInt 5)]" by simp
  have 4: "returns ex_env (VThunk (VInt 7)) [] [(''__x'', VInt 5)] ex_state
      (Inl TypeError, ex_state)"
    using c le by blast
  have 5: "returns ex_env (VThunk (VInt 7)) [] [(''_ExoticFunction__x'', VInt 5)] ex_state
       (Inr (VInt 5), ex_state)"
    using d by blast
  from 1 2 ne 3 le 4 5 show ?thesis by blast
qed

section \<open>The function \<^verbatim>\<open>apply\<close>\<close>

text \<open>
  \<^verbatim>\<open>apply\<close> and \<^verbatim>\<open>unpack\<close> are instances around functions that accept no keyword named
  \<^verbatim>\<open>self\<close>: with such a keyword the instance and the function raise the same TypeError.
\<close>

lemma keyword_self_other:
  "keyword_self kw \<Longrightarrow> p \<noteq> ''self'' \<Longrightarrow> list_ex (\<lambda>(k, v). k \<noteq> p) kw"
  by (induction kw) (auto simp: keyword_self_def)

lemma keyword_self_other2:
  "keyword_self kw \<Longrightarrow> p \<noteq> ''self'' \<Longrightarrow> q \<noteq> ''self'' \<Longrightarrow>
     list_ex (\<lambda>(k, v). k \<noteq> p \<and> k \<noteq> q) kw"
  by (induction kw) (auto simp: keyword_self_def)

lemma def_apply_keyword_self:
  "keyword_self kw \<Longrightarrow> def_apply rc args kw st = Some (Inl TypeError, st)"
  using keyword_self_other [of kw "''func''"]
  by (simp add: def_apply_def bind_kwonly_def bind1_def)

lemma def_unpack_keyword_self:
  assumes "keyword_self kw"
  shows "def_unpack rc args kw st = Some (Inl TypeError, st)"
proof -
  have "kw \<noteq> []" using assms by auto
  then have "bind2 ''arg'' ''func'' VNone args kw = Inl TypeError"
    using keyword_self_other [OF assms, of "''func''"]
      keyword_self_other2 [OF assms, of "''arg''" "''func''"]
    by (simp add: bind2_def split: list.splits)
  then show ?thesis by (simp add: def_unpack_def)
qed

lemma imported_apply:
  assumes "imported st"
  shows "returns env apply' args kw st = returns env VDefApply args kw st"
proof (cases "keyword_self kw")
  case True
  then have "returns env apply' args kw st r \<longleftrightarrow> r = (Inl TypeError, st)"
    and "returns env VDefApply args kw st r \<longleftrightarrow> r = (Inl TypeError, st)" for r
    by (auto simp: apply'_def returns_VRef_self returns_VDefApply def_apply_keyword_self)
  then show ?thesis by (intro ext) simp
next
  case False
  then show ?thesis using assms by (simp add: apply'_def returns_VRef imported_def)
qed

lemma imported_unpack:
  assumes "imported st"
  shows "returns env unpack args kw st = returns env VDefUnpack args kw st"
proof (cases "keyword_self kw")
  case True
  then have "returns env unpack args kw st r \<longleftrightarrow> r = (Inl TypeError, st)"
    and "returns env VDefUnpack args kw st r \<longleftrightarrow> r = (Inl TypeError, st)" for r
    by (auto simp: unpack_def returns_VRef_self returns_VDefUnpack def_unpack_keyword_self)
  then show ?thesis by (intro ext) simp
next
  case False
  then show ?thesis using assms by (simp add: unpack_def returns_VRef imported_def)
qed

lemma def_apply_first [simp]: "def_apply rc (f # rest) [] st = rc f rest [] st"
  by (simp add: def_apply_def bind_kwonly_def bind1_def)

lemma def_apply_empty [simp]: "def_apply rc [] [] st = Some (Inl IndexError, st)"
  by (simp add: def_apply_def bind_kwonly_def bind1_def)

lemma def_apply_func [simp]:
  "c \<noteq> VNone \<Longrightarrow> def_apply rc args [(''func'', c)] st = rc c args [] st"
  by (simp add: def_apply_def bind_kwonly_def bind1_def)

lemma def_apply_other_keyword:
  "list_ex (\<lambda>(k, v). k \<noteq> ''func'') kw \<Longrightarrow> def_apply rc args kw st = Some (Inl TypeError, st)"
  by (simp add: def_apply_def bind_kwonly_def bind1_def)

lemma returns_VDefApply_first:
  "returns env VDefApply (f # rest) [] st = returns env f rest [] st"
  by (rule ext) (simp add: returns_VDefApply, simp add: returns_def)

lemma returns_VDefApply_func:
  "c \<noteq> VNone \<Longrightarrow> returns env VDefApply args [(''func'', c)] st = returns env c args [] st"
  by (rule ext) (simp add: returns_VDefApply, simp add: returns_def)

text \<open>
  Claim C5. With \<^verbatim>\<open>func\<close> omitted and at least one positional argument,
  \<^verbatim>\<open>apply(f, *rest)\<close> returns what \<^verbatim>\<open>f(*rest)\<close> returns. With \<^verbatim>\<open>func=c\<close> for a function
  \<open>c\<close>, \<^verbatim>\<open>apply(*args, func=c)\<close> returns what \<^verbatim>\<open>c(*args)\<close> returns. In both modes the call
  that \<^verbatim>\<open>apply\<close> makes has no keyword argument, and \<^verbatim>\<open>apply\<close> accepts no keyword other
  than \<^verbatim>\<open>func\<close>: any other raises TypeError.
\<close>

theorem apply_two_modes:
  "imported st \<longrightarrow>
     returns env apply' (f # rest) [] st = returns env f rest [] st
     \<and> (c \<noteq> VNone \<longrightarrow>
          returns env apply' args [(''func'', c)] st = returns env c args [] st)
     \<and> (list_ex (\<lambda>(k, v). k \<noteq> ''func'') kw \<longrightarrow>
          (returns env apply' args kw st r \<longleftrightarrow> r = (Inl TypeError, st)))"
  by (auto simp: imported_apply returns_VDefApply_first returns_VDefApply_func
      returns_VDefApply def_apply_other_keyword)

theorem apply_two_modes_witness:
  "imported ex_state
   \<and> returns ex_env apply' [VFun ''print'', VInt 1, VInt 2, VInt 3] [] ex_state
       (Inr VNone, ex_state\<lparr>user := [(''print'', [VInt 1, VInt 2, VInt 3])]\<rparr>)
   \<and> VFun ''print'' \<noteq> VNone
   \<and> returns ex_env apply' [VInt 1, VInt 2, VInt 3] [(''func'', VFun ''print'')] ex_state
       (Inr VNone, ex_state\<lparr>user := [(''print'', [VInt 1, VInt 2, VInt 3])]\<rparr>)
   \<and> list_ex (\<lambda>(k, v). k \<noteq> ''func'') [(''sep'', VStr '', '')]
   \<and> returns ex_env apply' [VFun ''print'', VInt 1] [(''sep'', VStr '', '')] ex_state
       (Inl TypeError, ex_state)"
proof -
  have i: "imported ex_state" by simp
  have c: "VFun ''print'' \<noteq> VNone" by simp
  have k: "list_ex (\<lambda>(k, v). k \<noteq> ''func'') [(''sep'', VStr '', '')]" by simp
  have "returns ex_env apply' [VFun ''print'', VInt 1, VInt 2, VInt 3] [] ex_state =
      returns ex_env (VFun ''print'') [VInt 1, VInt 2, VInt 3] [] ex_state"
    using apply_two_modes [of ex_state ex_env "VFun ''print''" "[VInt 1, VInt 2, VInt 3]"] i
    by blast
  then have 1: "returns ex_env apply' [VFun ''print'', VInt 1, VInt 2, VInt 3] [] ex_state
       (Inr VNone, ex_state\<lparr>user := [(''print'', [VInt 1, VInt 2, VInt 3])]\<rparr>)"
    by (simp add: plain_def ex_env_def)
  have "returns ex_env apply' [VInt 1, VInt 2, VInt 3] [(''func'', VFun ''print'')] ex_state =
      returns ex_env (VFun ''print'') [VInt 1, VInt 2, VInt 3] [] ex_state"
    using apply_two_modes [of ex_state ex_env _ _ "VFun ''print''" "[VInt 1, VInt 2, VInt 3]"] i c
    by blast
  then have 2: "returns ex_env apply' [VInt 1, VInt 2, VInt 3] [(''func'', VFun ''print'')]
      ex_state (Inr VNone, ex_state\<lparr>user := [(''print'', [VInt 1, VInt 2, VInt 3])]\<rparr>)"
    by (simp add: plain_def ex_env_def)
  have 3: "returns ex_env apply' [VFun ''print'', VInt 1] [(''sep'', VStr '', '')] ex_state
       (Inl TypeError, ex_state)"
    using apply_two_modes [of ex_state ex_env _ _ _ "[VFun ''print'', VInt 1]"
        "[(''sep'', VStr '', '')]" "(Inl TypeError, ex_state)"] i k
    by blast
  from i 1 c 2 k 3 show ?thesis by blast
qed

text \<open>
  Claim C10. With \<^verbatim>\<open>func\<close> omitted and no positional argument, \<^verbatim>\<open>apply()\<close> raises
  IndexError: the body reads \<^verbatim>\<open>args[0]\<close> of the empty tuple. With at least one positional
  argument the same branch is the call of the first argument on the others and nothing
  else, so it cannot fail on that read.
\<close>

theorem apply_without_arguments_raises_IndexError:
  "def_apply rc [] [] st = Some (Inl IndexError, st)
   \<and> def_apply rc (f # rest) [] st = rc f rest [] st
   \<and> (imported st \<longrightarrow>
        (returns env apply' [] [] st r \<longleftrightarrow> r = (Inl IndexError, st))
        \<and> (args \<noteq> [] \<longrightarrow>
             returns env apply' args [] st = returns env (hd args) (tl args) [] st))"
proof -
  have "returns env apply' args [] st = returns env (hd args) (tl args) [] st"
    if "imported st" "args \<noteq> []"
    using that by (cases args) (simp_all add: imported_apply returns_VDefApply_first)
  then show ?thesis
    by (auto simp: imported_apply returns_VDefApply)
qed

theorem apply_without_arguments_raises_IndexError_witness:
  "imported ex_state
   \<and> returns ex_env apply' [] [] ex_state (Inl IndexError, ex_state)
   \<and> [VFun ''double'', VInt 5] \<noteq> []
   \<and> returns ex_env apply' [VFun ''double'', VInt 5] [] ex_state
       (Inr (VInt 10), ex_state\<lparr>user := [(''double'', [VInt 5])]\<rparr>)"
proof -
  have i: "imported ex_state" by simp
  have ne: "[VFun ''double'', VInt 5] \<noteq> []" by simp
  have 1: "returns ex_env apply' [] [] ex_state (Inl IndexError, ex_state)"
    using apply_without_arguments_raises_IndexError [of _ ex_state _ _ ex_env
        "(Inl IndexError, ex_state)"] i
    by blast
  have "returns ex_env apply' [VFun ''double'', VInt 5] [] ex_state =
      returns ex_env (hd [VFun ''double'', VInt 5]) (tl [VFun ''double'', VInt 5]) [] ex_state"
    using apply_without_arguments_raises_IndexError [of _ ex_state _ _ ex_env _
        "[VFun ''double'', VInt 5]"] i ne
    by blast
  then have 2: "returns ex_env apply' [VFun ''double'', VInt 5] [] ex_state
       (Inr (VInt 10), ex_state\<lparr>user := [(''double'', [VInt 5])]\<rparr>)"
    by (simp add: plain_def ex_env_def)
  from i 1 ne 2 show ?thesis by blast
qed

section \<open>The function \<^verbatim>\<open>unpack\<close>\<close>

lemma def_unpack_func:
  "def_unpack rc [p] [(''func'', c)] st =
     then_call (rc p [] [] st)
       (\<lambda>r st'. case iter r of
           Inl e \<Rightarrow> Some (Inl e, st')
         | Inr xs \<Rightarrow>
             (case partial c xs of
                Inl e \<Rightarrow> Some (Inl e, st')
              | Inr q \<Rightarrow>
                  (case new_ExoticFunction q None st' of
                     (w, st'') \<Rightarrow> Some (Inr (VRef w), st''))))"
  by (simp add: def_unpack_def bind2_def)

text \<open>
  Claim C6. Let the call \<^verbatim>\<open>p()\<close> return a sequence \<open>s\<close> with elements \<open>xs\<close>, and let \<open>c\<close> be
  callable. Then \<^verbatim>\<open>unpack(p, func=c)\<close> returns, in the state that \<^verbatim>\<open>p()\<close> left, one new
  instance around \<^verbatim>\<open>partial(c, *xs)\<close>, and invoking that instance with no argument returns
  what \<^verbatim>\<open>c(*xs)\<close> returns, with the effect of that one call. In the witness \<open>p\<close> returns
  \<^verbatim>\<open>[1, 2, 3]\<close> and the log shows \<^verbatim>\<open>print(1, 2, 3)\<close> called once.
\<close>

theorem unpack_spreads_producer_result:
  "imported st \<and> returns env p [] [] st (Inr s, st1) \<and> iter s = Inr xs \<and> callable c \<longrightarrow>
     (case new_ExoticFunction (VPartial c xs) None st1 of
        (w, st2) \<Rightarrow>
          (\<forall>r. returns env unpack [p] [(''func'', c)] st r \<longleftrightarrow> r = (Inr (VRef w), st2))
          \<and> objs st2 w = \<lparr>func = VPartial c xs, composed = VLambdaId\<rparr>
          \<and> (\<forall>args kw. returns env (VRef w) args kw st2 =
                 unless_self kw st2 (returns env c (xs @ args) kw st2)))"
proof (intro impI)
  assume "imported st \<and> returns env p [] [] st (Inr s, st1) \<and> iter s = Inr xs \<and> callable c"
  then have i: "imported st" and p: "returns env p [] [] st (Inr s, st1)"
    and s: "iter s = Inr xs" and c: "callable c"
    by simp_all
  obtain w st2 where n: "new_ExoticFunction (VPartial c xs) None st1 = (w, st2)"
    by (cases "new_ExoticFunction (VPartial c xs) None st1")
  from p obtain k where k: "call env k p [] [] st = Some (Inr s, st1)"
    by (auto simp: returns_def)
  have "def_unpack (call env k) [p] [(''func'', c)] st = Some (Inr (VRef w), st2)"
    using k s c n by (simp add: def_unpack_func then_call_def partial_def)
  then have "returns env VDefUnpack [p] [(''func'', c)] st (Inr (VRef w), st2)"
    unfolding returns_VDefUnpack by blast
  then have u: "returns env unpack [p] [(''func'', c)] st (Inr (VRef w), st2)"
    using i by (simp add: imported_unpack)
  have uniq: "returns env unpack [p] [(''func'', c)] st r \<longleftrightarrow> r = (Inr (VRef w), st2)" for r
    using u returns_unique by blast
  have attrs: "objs st2 w = \<lparr>func = VPartial c xs, composed = VLambdaId\<rparr>"
    using n by (auto simp: new_ExoticFunction_def)
  have "returns env (VRef w) args kw st2 =
      unless_self kw st2 (returns env c (xs @ args) kw st2)" for args kw
    by (simp add: returns_VRef_unless [of env w] attrs)
  with uniq attrs show "case new_ExoticFunction (VPartial c xs) None st1 of
        (w, st2) \<Rightarrow>
          (\<forall>r. returns env unpack [p] [(''func'', c)] st r \<longleftrightarrow> r = (Inr (VRef w), st2))
          \<and> objs st2 w = \<lparr>func = VPartial c xs, composed = VLambdaId\<rparr>
          \<and> (\<forall>args kw. returns env (VRef w) args kw st2 =
                 unless_self kw st2 (returns env c (xs @ args) kw st2))"
    by (simp add: n)
qed

theorem unpack_spreads_producer_result_witness:
  "imported ex_state
   \<and> returns ex_env (VFun ''numbers'') [] [] ex_state
       (Inr (VList [VInt 1, VInt 2, VInt 3]), ex_state\<lparr>user := [(''numbers'', [])]\<rparr>)
   \<and> iter (VList [VInt 1, VInt 2, VInt 3]) = Inr [VInt 1, VInt 2, VInt 3]
   \<and> callable (VFun ''print'')
   \<and> (case new_ExoticFunction (VPartial (VFun ''print'') [VInt 1, VInt 2, VInt 3]) None
             (ex_state\<lparr>user := [(''numbers'', [])]\<rparr>) of
        (w, st2) \<Rightarrow>
          returns ex_env unpack [VFun ''numbers''] [(''func'', VFun ''print'')] ex_state
            (Inr (VRef w), st2)
          \<and> returns ex_env (VRef w) [] [] st2
              (Inr VNone,
               st2\<lparr>user := [(''numbers'', []), (''print'', [VInt 1, VInt 2, VInt 3])]\<rparr>))"
proof -
  let ?st1 = "ex_state\<lparr>user := [(''numbers'', [])]\<rparr>"
  have i: "imported ex_state" by simp
  have p: "returns ex_env (VFun ''numbers'') [] [] ex_state
       (Inr (VList [VInt 1, VInt 2, VInt 3]), ?st1)"
    by (simp add: plain_def ex_env_def)
  have s: "iter (VList [VInt 1, VInt 2, VInt 3]) = Inr [VInt 1, VInt 2, VInt 3]" by simp
  have c: "callable (VFun ''print'')" by simp
  obtain w st2 where n: "new_ExoticFunction (VPartial (VFun ''print'')
      [VInt 1, VInt 2, VInt 3]) None ?st1 = (w, st2)"
    by (cases "new_ExoticFunction (VPartial (VFun ''print'') [VInt 1, VInt 2, VInt 3]) None ?st1")
  have u: "user st2 = [(''numbers'', [])]"
    using n by (auto simp: new_ExoticFunction_def)
  note inst = unpack_spreads_producer_result [of ex_state ex_env "VFun ''numbers''"
      "VList [VInt 1, VInt 2, VInt 3]" ?st1 "[VInt 1, VInt 2, VInt 3]" "VFun ''print''"]
  have 1: "returns ex_env unpack [VFun ''numbers''] [(''func'', VFun ''print'')] ex_state
            (Inr (VRef w), st2)"
    using inst i p s c by (simp add: n)
  have "returns ex_env (VRef w) [] [] st2 =
      unless_self [] st2 (returns ex_env (VFun ''print'') ([VInt 1, VInt 2, VInt 3] @ []) [] st2)"
    using inst i p s c n by (simp add: n)
  then have 2: "returns ex_env (VRef w) [] [] st2
      (Inr VNone, st2\<lparr>user := [(''numbers'', []), (''print'', [VInt 1, VInt 2, VInt 3])]\<rparr>)"
    by (simp add: plain_def ex_env_def u)
  from i p s c 1 2 show ?thesis by (simp add: n)
qed

section \<open>The combinators build and do not change\<close>

lemma new_adds_instance:
  "new_ExoticFunction f c st = (b, st') \<Longrightarrow> adds_instance st b st'"
  by (auto simp: new_ExoticFunction_def adds_instance_def)

lemma adds_instance_original_kept:
  assumes "adds_instance st b st'" and "w < next_addr st"
  shows "original_kept env w st b st'"
proof -
  have ne: "b \<noteq> w" using assms by (auto simp: adds_instance_def)
  then have same: "objs st' w = objs st w"
    using assms(1) by (simp add: adds_instance_def)
  show ?thesis
    unfolding original_kept_def
    using ne assms(1) same by (simp add: returns_VRef_unless [of env w])
qed

text \<open>
  Claim C9. Let \<open>w\<close> be an existing instance. \<^verbatim>\<open>w @ g\<close> returns an instance, and so does each
  of \<^verbatim>\<open>w * a\<close>, \<^verbatim>\<open>w >> a\<close> and \<^verbatim>\<open>w << a\<close> when the \<open>func\<close> of \<open>w\<close> is callable. The instance
  returned is a new one, at an address different from \<open>w\<close> and from every existing instance,
  and the state is as it was but for that new instance: the \<open>func\<close> and \<open>composed\<close> of \<open>w\<close>,
  every other instance and the caller's state are unchanged, and invoking \<open>w\<close> afterwards is
  the call of the same \<open>func\<close> followed by the same \<open>composed\<close>. When the \<open>func\<close> of \<open>w\<close> is not
  callable the three raise TypeError and leave the state unchanged.
\<close>

theorem combinators_add_one_instance_and_change_none:
  "w < next_addr st \<longrightarrow>
     (\<exists>b st'. matmul w g st = (b, st') \<and> original_kept env w st b st')
   \<and> (callable (func (objs st w)) \<longrightarrow>
        (\<exists>b st'. mul w a st = (Inr b, st') \<and> original_kept env w st b st')
        \<and> (\<exists>b st'. rshift w a st = (Inr b, st') \<and> original_kept env w st b st')
        \<and> (\<exists>b st'. lshift w a st = (Inr b, st') \<and> original_kept env w st b st'))
   \<and> (\<not> callable (func (objs st w)) \<longrightarrow>
        mul w a st = (Inl TypeError, st) \<and> rshift w a st = (Inl TypeError, st)
        \<and> lshift w a st = (Inl TypeError, st))"
proof (intro impI conjI)
  assume lt: "w < next_addr st"
  obtain b st' where m: "matmul w g st = (b, st')" by (cases "matmul w g st")
  then have "adds_instance st b st'" by (simp add: matmul_def new_adds_instance)
  then have "original_kept env w st b st'" using lt by (rule adds_instance_original_kept)
  with m show "\<exists>b st'. matmul w g st = (b, st') \<and> original_kept env w st b st'" by blast
next
  fix x
  assume lt: "w < next_addr st" and cl: "callable (func (objs st w))"
  have built: "\<exists>b st'. mul w x st = (Inr b, st') \<and> original_kept env w st b st'" for x
  proof -
    obtain b st' where n: "new_ExoticFunction (VPartial (func (objs st w)) [x])
        (Some (composed (objs st w))) st = (b, st')"
      by (cases "new_ExoticFunction (VPartial (func (objs st w)) [x])
        (Some (composed (objs st w))) st")
    have m: "mul w x st = (Inr b, st')" using cl n by (simp add: mul_callable)
    have "adds_instance st b st'" using n by (rule new_adds_instance)
    then have "original_kept env w st b st'" using lt by (rule adds_instance_original_kept)
    with m show ?thesis by blast
  qed
  show "\<exists>b st'. mul w a st = (Inr b, st') \<and> original_kept env w st b st'"
    by (rule built)
  show "\<exists>b st'. rshift w a st = (Inr b, st') \<and> original_kept env w st b st'"
    unfolding rshift_def by (rule built)
  show "\<exists>b st'. lshift w a st = (Inr b, st') \<and> original_kept env w st b st'"
    unfolding lshift_def by (rule built)
next
  assume "\<not> callable (func (objs st w))"
  then have e: "mul w x st = (Inl TypeError, st)" for x
    by (rule mul_not_callable)
  show "mul w a st = (Inl TypeError, st)" by (rule e)
  show "rshift w a st = (Inl TypeError, st)" unfolding rshift_def by (rule e)
  show "lshift w a st = (Inl TypeError, st)" unfolding lshift_def by (rule e)
qed

theorem combinators_add_one_instance_and_change_none_witness:
  "(3::nat) < next_addr ex_wrapped \<and> callable (func (objs ex_wrapped 3))
   \<and> (case matmul 3 (VFun ''inc'') ex_wrapped of
        (b, st') \<Rightarrow> b = 4 \<and> objs st' 3 = objs ex_wrapped 3 \<and> user st' = []
          \<and> returns ex_env (VRef 3) [VInt 1] [] st'
              (Inr VNone, st'\<lparr>user := [(''print'', [VInt 1])]\<rparr>))
   \<and> (case mul 3 (VInt 7) ex_wrapped of
        (r, st') \<Rightarrow> r = Inr 4 \<and> objs st' 3 = objs ex_wrapped 3 \<and> user st' = []
          \<and> returns ex_env (VRef 3) [VInt 1] [] st'
              (Inr VNone, st'\<lparr>user := [(''print'', [VInt 1])]\<rparr>))
   \<and> (case rshift 3 (VInt 7) ex_wrapped of
        (r, st') \<Rightarrow> r = Inr 4 \<and> objs st' 3 = objs ex_wrapped 3 \<and> user st' = []
          \<and> returns ex_env (VRef 3) [VInt 1] [] st'
              (Inr VNone, st'\<lparr>user := [(''print'', [VInt 1])]\<rparr>))
   \<and> (case lshift 3 (VInt 7) ex_wrapped of
        (r, st') \<Rightarrow> r = Inr 4 \<and> objs st' 3 = objs ex_wrapped 3 \<and> user st' = []
          \<and> returns ex_env (VRef 3) [VInt 1] [] st'
              (Inr VNone, st'\<lparr>user := [(''print'', [VInt 1])]\<rparr>))
   \<and> (case new_ExoticFunction (VInt 5) None ex_state of
        (w, st) \<Rightarrow> w < next_addr st \<and> \<not> callable (func (objs st w))
          \<and> mul w (VInt 7) st = (Inl TypeError, st)
          \<and> rshift w (VInt 7) st = (Inl TypeError, st)
          \<and> lshift w (VInt 7) st = (Inl TypeError, st))"
proof -
  have lt: "(3::nat) < next_addr ex_wrapped" by simp
  have cl: "callable (func (objs ex_wrapped 3))" by simp
  note inst = combinators_add_one_instance_and_change_none [of 3 ex_wrapped "VFun ''inc''"
      ex_env "VInt 7"]
  have use: "b = 4 \<and> objs st' 3 = objs ex_wrapped 3 \<and> user st' = []
      \<and> returns ex_env (VRef 3) [VInt 1] [] st'
          (Inr VNone, st'\<lparr>user := [(''print'', [VInt 1])]\<rparr>)"
    if "original_kept ex_env 3 ex_wrapped b st'" for b st'
  proof -
    from that have b: "b = 4" and same: "objs st' 3 = objs ex_wrapped 3"
      and u: "user st' = []"
      and r: "returns ex_env (VRef 3) [VInt 1] [] st' =
           unless_self [] st'
             (and_then (returns ex_env (func (objs ex_wrapped 3)) [VInt 1] [] st')
                (\<lambda>v s. returns ex_env (composed (objs ex_wrapped 3)) [v] [] s))"
      by (simp_all add: original_kept_def adds_instance_def)
    show ?thesis
      using b same u by (simp add: r and_then_VFun plain_def ex_env_def)
  qed
  obtain b1 s1 where m1: "matmul 3 (VFun ''inc'') ex_wrapped = (b1, s1)"
    and k1: "original_kept ex_env 3 ex_wrapped b1 s1"
    using inst lt by blast
  obtain b2 s2 where m2: "mul 3 (VInt 7) ex_wrapped = (Inr b2, s2)"
    and k2: "original_kept ex_env 3 ex_wrapped b2 s2"
    using inst lt cl by blast
  obtain b3 s3 where m3: "rshift 3 (VInt 7) ex_wrapped = (Inr b3, s3)"
    and k3: "original_kept ex_env 3 ex_wrapped b3 s3"
    using inst lt cl by blast
  obtain b4 s4 where m4: "lshift 3 (VInt 7) ex_wrapped = (Inr b4, s4)"
    and k4: "original_kept ex_env 3 ex_wrapped b4 s4"
    using inst lt cl by blast
  obtain w st where n: "new_ExoticFunction (VInt 5) None ex_state = (w, st)"
    by (cases "new_ExoticFunction (VInt 5) None ex_state")
  then have wlt: "w < next_addr st" and nc: "\<not> callable (func (objs st w))"
    by (auto simp: new_ExoticFunction_def)
  have e: "mul w (VInt 7) st = (Inl TypeError, st) \<and> rshift w (VInt 7) st = (Inl TypeError, st)
        \<and> lshift w (VInt 7) st = (Inl TypeError, st)"
    using combinators_add_one_instance_and_change_none [of w st _ _ "VInt 7"] wlt nc by blast
  show ?thesis
    using lt cl use [OF k1] use [OF k2] use [OF k3] use [OF k4] wlt nc e
    by (simp add: m1 m2 m3 m4 n)
qed

section \<open>Two examples of the module's docstring\<close>

text \<open>
  The evaluator run on two of the expressions the docstring gives, with the example
  environment. Here \<^verbatim>\<open>x | y\<close> is \<^verbatim>\<open>x.__or__(y)\<close>, and the numbers are recursion depths
  that suffice.
\<close>

lemmas ex_defs = ex_state_def import_module_def empty_store_def new_ExoticFunction_def
  builder_mod_def exotic_def def_exotic_def bind1_def bind2_def bind_kwonly_def
  rshift_def lshift_def mul_def matmul_def partial_def or_pipe_def ExoticFunction_call_def then_call_def
  def_unpack_def def_apply_def thunk_def lambda_id_def plain_def ex_env_def apply'_def unpack_def
  keyword_self_def

text \<open>\<^verbatim>\<open>exotic % print * 'Hello, world' | apply\<close> calls \<^verbatim>\<open>print('Hello, world')\<close>.\<close>

lemma docstring_example_hello:
  "\<exists>p st1 q st2 st3.
     builder_mod (call ex_env 1) exotic (VFun ''print'') ex_state = Some (Inr (VRef p), st1)
   \<and> mul p (VStr ''Hello, world'') st1 = (Inr q, st2)
   \<and> or_pipe (call ex_env 5) q apply' st2 = Some (Inr VNone, st3)
   \<and> user st3 = [(''print'', [VStr ''Hello, world''])]"
  by (simp add: ex_defs eval_nat_numeral)

text \<open>\<^verbatim>\<open>exotic % print | unpack >> [1, 2, 3, 4] | apply\<close> calls \<^verbatim>\<open>print(1, 2, 3, 4)\<close>.\<close>

lemma docstring_example_unpack:
  "\<exists>p st1 u st2 q st3 st4.
     builder_mod (call ex_env 1) exotic (VFun ''print'') ex_state = Some (Inr (VRef p), st1)
   \<and> rshift 0 (VList [VInt 1, VInt 2, VInt 3, VInt 4]) st1 = (Inr u, st2)
   \<and> or_pipe (call ex_env 4) p (VRef u) st2 = Some (Inr (VRef q), st3)
   \<and> or_pipe (call ex_env 6) q apply' st3 = Some (Inr VNone, st4)
   \<and> user st4 = [(''print'', [VInt 1, VInt 2, VInt 3, VInt 4])]"
  by (simp add: ex_defs eval_nat_numeral)

end
